theory Spec2Isabelle
  imports Complex_Main "HOL-Library.Word" "HOL-Library.List_Lexorder"
begin

section \<open>JavaScript values\<close>

text \<open>
  A JavaScript string is a sequence of UTF-16 code units; \<open>.length\<close> counts code units and
  \<open>===\<close>, \<open><\<close> compare them unit by unit. The order on \<open>jsstring\<close> is the lexicographic
  one on unsigned code units, which is the order of JavaScript's string comparison.
\<close>

type_synonym jsstring = "16 word list"

definition ascii :: "string \<Rightarrow> jsstring" where
  "ascii s = map of_char s"

text \<open>What \<open>c.req.json()\<close> can yield, and \<open>undefined\<close> for a property that is not there.\<close>

datatype jsval =
    JUndefined
  | JNull
  | JBool bool
  | JNumber rat
  | JString jsstring
  | JArray "jsval list"
  | JObject "(jsstring \<times> jsval) list"

datatype jstype = TUndefined | TObject | TBoolean | TNumber | TString

fun typeof :: "jsval \<Rightarrow> jstype" where
  "typeof JUndefined = TUndefined"
| "typeof JNull = TObject"
| "typeof (JBool b) = TBoolean"
| "typeof (JNumber r) = TNumber"
| "typeof (JString s) = TString"
| "typeof (JArray xs) = TObject"
| "typeof (JObject kvs) = TObject"

text \<open>
  \<open>const { a, b } = body\<close> throws a TypeError when \<open>body\<close> is \<open>null\<close> or \<open>undefined\<close>;
  on any other value a property that is absent reads as \<open>undefined\<close>. None of the
  property names the handlers read exists on a string, number, boolean or array.
\<close>

fun destructurable :: "jsval \<Rightarrow> bool" where
  "destructurable JUndefined = False"
| "destructurable JNull = False"
| "destructurable v = True"

fun getProp :: "jsval \<Rightarrow> jsstring \<Rightarrow> jsval" where
  "getProp (JObject kvs) k = (case map_of kvs k of None \<Rightarrow> JUndefined | Some v \<Rightarrow> v)"
| "getProp v k = JUndefined"

section \<open>The platform\<close>

text \<open>
  \<open>String.prototype.toLowerCase\<close>, \<open>TextEncoder.encode\<close> and \<open>crypto.subtle.digest\<close>
  belong to the runtime and are parameters. \<open>isStr\<close> is imported from \<open>core-utils\<close>,
  which is not among the sources: the handlers call \<open>.length\<close> and \<open>.toLowerCase()\<close> on
  a \<open>string | undefined\<close> right after it, so it narrows its argument to a string; what
  it asks of a string beyond that is the parameter \<open>strOk\<close>.
\<close>

record env =
  toLowerCase :: "jsstring \<Rightarrow> jsstring"
  encode :: "jsstring \<Rightarrow> 8 word list"
  sha256 :: "8 word list \<Rightarrow> 8 word list"
  strOk :: "jsstring \<Rightarrow> bool"

fun isStr :: "env \<Rightarrow> jsval \<Rightarrow> bool" where
  "isStr e (JString s) = strOk e s"
| "isStr e v = False"

text \<open>\<open>b.toString(16).padStart(2, '0')\<close> for a byte \<open>b\<close>: two lower-case hex digits.\<close>

definition hexDigit :: "nat \<Rightarrow> 16 word" where
  "hexDigit n = (if n < 10 then of_nat (48 + n) else of_nat (87 + n))"

definition hexByte :: "8 word \<Rightarrow> jsstring" where
  "hexByte b = [hexDigit (unat b div 16), hexDigit (unat b mod 16)]"

definition createHash :: "env \<Rightarrow> jsstring \<Rightarrow> jsstring" where
  "createHash e text = concat (map hexByte (sha256 e (encode e text)))"

section \<open>Records\<close>

text \<open>
  The field \<open>id\<close> of both records is written \<open>user_id\<close> and \<open>note_id\<close>, since \<open>id\<close> is
  the identity function of HOL.
\<close>

record UserRecord =
  user_id :: jsstring
  username :: jsstring
  passwordHash :: jsstring
  noteIds :: "jsstring list"

record Note =
  note_id :: jsstring
  title :: jsstring
  content :: jsstring
  userId :: jsstring
  createdAt :: jsstring
  updatedAt :: jsstring

text \<open>\<open>Partial<Note>\<close>, the argument of \<open>patch\<close>: every field may be left out.\<close>

record PartialNote =
  p_id :: "jsstring option"
  p_title :: "jsstring option"
  p_content :: "jsstring option"
  p_userId :: "jsstring option"
  p_createdAt :: "jsstring option"
  p_updatedAt :: "jsstring option"

section \<open>The entity store\<close>

text \<open>
  \<open>IndexedEntity\<close> and the storage behind it live in \<open>core-utils\<close>, which is not among
  the sources. One table per entity type holds the records by key and the index of
  known keys; both tables sit in the one storage partition.
\<close>

datatype error = AlreadyExists | NotFound | TypeError

record 'a table =
  recs :: "jsstring \<rightharpoonup> 'a"
  index :: "jsstring set"

record store =
  userEntities :: "UserRecord table"
  noteEntities :: "Note table"

definition exists_entity :: "'a table \<Rightarrow> jsstring \<Rightarrow> bool" where
  \<comment> \<open>Modelled from the spec: \<open>exists\<close> of the entity store is missing from the sources;
      true iff a record of that type and key has been created and not deleted.\<close>
  "exists_entity t k = (recs t k \<noteq> None)"

definition create :: "('a \<Rightarrow> jsstring) \<Rightarrow> 'a table \<Rightarrow> 'a \<Rightarrow> error + 'a table" where
  \<comment> \<open>Modelled from the spec: \<open>create\<close> of the entity store is missing from the sources;
      it fails with AlreadyExists if the key is already present, otherwise stores the
      value and registers the key in the type's index.\<close>
  "create keyOf t v =
     (if recs t (keyOf v) \<noteq> None then Inl AlreadyExists
      else Inr (t\<lparr>recs := (recs t)(keyOf v \<mapsto> v), index := insert (keyOf v) (index t)\<rparr>))"

definition getState :: "'a table \<Rightarrow> jsstring \<Rightarrow> error + 'a" where
  \<comment> \<open>Modelled from the spec: \<open>getState\<close> of the entity store is missing from the sources;
      it fails with NotFound if the record is absent, otherwise returns the stored value.\<close>
  "getState t k = (case recs t k of None \<Rightarrow> Inl NotFound | Some v \<Rightarrow> Inr v)"

definition mutate :: "'a table \<Rightarrow> jsstring \<Rightarrow> ('a \<Rightarrow> 'a) \<Rightarrow> error + 'a table" where
  \<comment> \<open>Modelled from the spec: \<open>mutate\<close> of the entity store is missing from the sources;
      it reads the current value, applies the transform and writes the result back.\<close>
  "mutate t k f =
     (case getState t k of
        Inl err \<Rightarrow> Inl err
      | Inr v \<Rightarrow> Inr (t\<lparr>recs := (recs t)(k \<mapsto> f v)\<rparr>))"

definition delete_entity :: "'a table \<Rightarrow> jsstring \<Rightarrow> 'a table" where
  \<comment> \<open>Modelled from the spec: \<open>delete\<close> of the entity store is missing from the sources;
      it removes the record and its index entry, and deleting an absent key is no error.\<close>
  "delete_entity t k = t\<lparr>recs := (recs t)(k := None), index := index t - {k}\<rparr>"

definition merge :: "Note \<Rightarrow> PartialNote \<Rightarrow> Note" where
  \<comment> \<open>The shallow merge \<open>{...s, ...p}\<close> of a partial note into a note.\<close>
  "merge s p =
     \<lparr> note_id = (case p_id p of None \<Rightarrow> note_id s | Some v \<Rightarrow> v),
       title = (case p_title p of None \<Rightarrow> title s | Some v \<Rightarrow> v),
       content = (case p_content p of None \<Rightarrow> content s | Some v \<Rightarrow> v),
       userId = (case p_userId p of None \<Rightarrow> userId s | Some v \<Rightarrow> v),
       createdAt = (case p_createdAt p of None \<Rightarrow> createdAt s | Some v \<Rightarrow> v),
       updatedAt = (case p_updatedAt p of None \<Rightarrow> updatedAt s | Some v \<Rightarrow> v) \<rparr>"

definition patch :: "Note table \<Rightarrow> jsstring \<Rightarrow> PartialNote \<Rightarrow> error + Note table" where
  \<comment> \<open>Modelled from the spec: \<open>patch\<close> of the entity store is missing from the sources;
      it shallow-merges the given fields into the current value, and a field that is
      not given keeps its value.\<close>
  "patch t k p = mutate t k (\<lambda>s. merge s p)"

text \<open>
  The key of a record is its \<open>id\<close>: the comment in \<open>UserEntity\<close> says that the base
  class implementation \<open>(state) => state.id\<close> is used.
\<close>

section \<open>UserEntity\<close>

text \<open>
  \<open>new Set(iterable)\<close> adds the elements in order and keeps the first occurrence of
  each; spreading the set gives them back in insertion order.
\<close>

definition set_add :: "'a list \<Rightarrow> 'a \<Rightarrow> 'a list" where
  "set_add s x = (if x \<in> set s then s else s @ [x])"

definition new_Set :: "'a list \<Rightarrow> 'a list" where
  "new_Set xs = foldl set_add [] xs"

definition getPasswordHash :: "UserRecord table \<Rightarrow> jsstring \<Rightarrow> error + jsstring" where
  "getPasswordHash t k =
     (case getState t k of Inl err \<Rightarrow> Inl err | Inr s \<Rightarrow> Inr (passwordHash s))"

definition updatePasswordHash_tr :: "jsstring \<Rightarrow> UserRecord \<Rightarrow> UserRecord" where
  "updatePasswordHash_tr newHash s = s\<lparr>passwordHash := newHash\<rparr>"

definition addNoteId_tr :: "jsstring \<Rightarrow> UserRecord \<Rightarrow> UserRecord" where
  "addNoteId_tr noteId s = s\<lparr>noteIds := new_Set (noteIds s @ [noteId])\<rparr>"

definition removeNoteId_tr :: "jsstring \<Rightarrow> UserRecord \<Rightarrow> UserRecord" where
  "removeNoteId_tr noteId s = s\<lparr>noteIds := filter (\<lambda>i. i \<noteq> noteId) (noteIds s)\<rparr>"

definition updatePasswordHash :: "UserRecord table \<Rightarrow> jsstring \<Rightarrow> jsstring \<Rightarrow> error + UserRecord table" where
  "updatePasswordHash t k newHash = mutate t k (updatePasswordHash_tr newHash)"

definition addNoteId :: "UserRecord table \<Rightarrow> jsstring \<Rightarrow> jsstring \<Rightarrow> error + UserRecord table" where
  "addNoteId t k noteId = mutate t k (addNoteId_tr noteId)"

definition removeNoteId :: "UserRecord table \<Rightarrow> jsstring \<Rightarrow> jsstring \<Rightarrow> error + UserRecord table" where
  "removeNoteId t k noteId = mutate t k (removeNoteId_tr noteId)"

section \<open>Responses\<close>

text \<open>
  A handler answers with a JSON body and a status, or an exception escapes it. The
  helpers \<open>ok\<close>, \<open>bad\<close> and \<open>notFound\<close> come from \<open>core-utils\<close>; the one failure the
  handlers build themselves, \<open>c.json({ success: false, error: ... }, 403)\<close>, shows the
  shape of a failure: a status and a message.
\<close>

datatype payload =
    Success
  | Session jsstring "Note list"
  | NoteBody Note

datatype response =
    Ok payload
  | Fail nat jsstring
  | Threw error

definition ok :: "payload \<Rightarrow> response" where
  \<comment> \<open>Modelled from the spec: \<open>ok\<close> of \<open>core-utils\<close> is missing from the sources;
      the success response carrying the given data.\<close>
  "ok d = Ok d"

definition bad :: "jsstring \<Rightarrow> response" where
  \<comment> \<open>Modelled from the spec: \<open>bad\<close> of \<open>core-utils\<close> is missing from the sources;
      a structured failure with the message, status 400.\<close>
  "bad msg = Fail 400 msg"

definition notFound :: "jsstring \<Rightarrow> response" where
  \<comment> \<open>Modelled from the spec: \<open>notFound\<close> of \<open>core-utils\<close> is missing from the sources;
      a structured failure with the message, status 404.\<close>
  "notFound msg = Fail 404 msg"

fun message :: "response \<Rightarrow> jsstring option" where
  "message (Fail status msg) = Some msg"
| "message r = None"

section \<open>String literals of the handlers\<close>

text \<open>Each literal is written out at the place where the source has it.\<close>

definition auth_msg_required :: jsstring where
  "auth_msg_required = ascii ''Kimlik bilgileri gereklidir.''"

definition auth_msg_no_user :: jsstring where
  "auth_msg_no_user = ascii ''Kullan'' @ [0x131] @ ascii ''c'' @ [0x131] @ ascii '' bulunamad'' @ [0x131] @ ascii '' veya '' @ [0x15F] @ ascii ''ifre yanl'' @ [0x131] @ [0x15F] @ ascii ''.''"

definition auth_msg_wrong_password :: jsstring where
  "auth_msg_wrong_password = ascii ''Kullan'' @ [0x131] @ ascii ''c'' @ [0x131] @ ascii '' bulunamad'' @ [0x131] @ ascii '' veya '' @ [0x15F] @ ascii ''ifre yanl'' @ [0x131] @ [0x15F] @ ascii ''.''"

definition register_msg_required :: jsstring where
  "register_msg_required = ascii ''Kullan'' @ [0x131] @ ascii ''c'' @ [0x131] @ ascii '' ad'' @ [0x131] @ ascii '' ve '' @ [0x15F] @ ascii ''ifre gereklidir.''"

definition register_msg_username_short :: jsstring where
  "register_msg_username_short = ascii ''Kullan'' @ [0x131] @ ascii ''c'' @ [0x131] @ ascii '' ad'' @ [0x131] @ ascii '' en az 3 karakter olmal'' @ [0x131] @ ascii ''d'' @ [0x131] @ ascii ''r.''"

definition register_msg_password_short :: jsstring where
  "register_msg_password_short = [0x15E] @ ascii ''ifre en az 6 karakter olmal'' @ [0x131] @ ascii ''d'' @ [0x131] @ ascii ''r.''"

definition register_msg_taken :: jsstring where
  "register_msg_taken = ascii ''Bu kullan'' @ [0x131] @ ascii ''c'' @ [0x131] @ ascii '' ad'' @ [0x131] @ ascii '' zaten al'' @ [0x131] @ ascii ''nm'' @ [0x131] @ [0x15F] @ ascii ''.''"

definition login_msg_required :: jsstring where
  "login_msg_required = ascii ''Kullan'' @ [0x131] @ ascii ''c'' @ [0x131] @ ascii '' ad'' @ [0x131] @ ascii '' ve '' @ [0x15F] @ ascii ''ifre gereklidir.''"

definition login_msg_no_user :: jsstring where
  "login_msg_no_user = ascii ''Kullan'' @ [0x131] @ ascii ''c'' @ [0x131] @ ascii '' bulunamad'' @ [0x131] @ ascii '' veya '' @ [0x15F] @ ascii ''ifre yanl'' @ [0x131] @ [0x15F] @ ascii ''.''"

definition login_msg_wrong_password :: jsstring where
  "login_msg_wrong_password = ascii ''Kullan'' @ [0x131] @ ascii ''c'' @ [0x131] @ ascii '' bulunamad'' @ [0x131] @ ascii '' veya '' @ [0x15F] @ ascii ''ifre yanl'' @ [0x131] @ [0x15F] @ ascii ''.''"

definition default_title :: jsstring where
  "default_title = [0x130] @ ascii ''simsiz Not''"

definition default_content :: jsstring where
  "default_content = ascii ''Yeni notunuzu buraya yaz'' @ [0x131] @ ascii ''n...''"

definition update_msg_not_found :: jsstring where
  "update_msg_not_found = ascii ''Not bulunamad'' @ [0x131] @ ascii ''.''"

definition update_msg_forbidden :: jsstring where
  "update_msg_forbidden = ascii ''Yetkisiz i'' @ [0x15F] @ ascii ''lem.''"

definition delete_msg_not_found :: jsstring where
  "delete_msg_not_found = ascii ''Not bulunamad'' @ [0x131] @ ascii ''.''"

definition delete_msg_forbidden :: jsstring where
  "delete_msg_forbidden = ascii ''Yetkisiz i'' @ [0x15F] @ ascii ''lem.''"

definition password_msg_short :: jsstring where
  "password_msg_short = ascii ''Yeni '' @ [0x15F] @ ascii ''ifre en az 6 karakter olmal'' @ [0x131] @ ascii ''d'' @ [0x131] @ ascii ''r.''"

text \<open>The property names the handlers read from the request body.\<close>

definition k_username :: jsstring where
  "k_username = ascii ''username''"
definition k_password :: jsstring where
  "k_password = ascii ''password''"
definition k_title :: jsstring where
  "k_title = ascii ''title''"
definition k_content :: jsstring where
  "k_content = ascii ''content''"
definition k_newPassword :: jsstring where
  "k_newPassword = ascii ''newPassword''"

section \<open>Authentication middleware\<close>

text \<open>
  What the middleware sets on the request for the handlers: the entity handle of the user
  (a handle is its key), the user id and the parsed body.
\<close>

record reqctx =
  ctx_userEntity :: jsstring
  ctx_userId :: jsstring
  ctx_body :: jsval

definition authenticateUser :: "env \<Rightarrow> store \<Rightarrow> jsval \<Rightarrow> response + reqctx" where
  "authenticateUser e st body =
     (if \<not> destructurable body then Inl (Threw TypeError)
      else
        let uname = getProp body k_username; password = getProp body k_password in
        if \<not> isStr e uname \<or> \<not> isStr e password then Inl (bad auth_msg_required)
        else
          case uname of
            JString u \<Rightarrow>
              (case password of
                 JString p \<Rightarrow>
                   (let uid = toLowerCase e u in
                    if \<not> exists_entity (userEntities st) uid
                    then Inl (notFound auth_msg_no_user)
                    else
                      (case getPasswordHash (userEntities st) uid of
                         Inl err \<Rightarrow> Inl (Threw err)
                       | Inr storedHash \<Rightarrow>
                           (if storedHash \<noteq> createHash e p
                            then Inl (bad auth_msg_wrong_password)
                            else Inr \<lparr>ctx_userEntity = uid, ctx_userId = uid, ctx_body = body\<rparr>)))
               | _ \<Rightarrow> Inl (Threw TypeError))
          | _ \<Rightarrow> Inl (Threw TypeError))"

definition withAuth ::
  "env \<Rightarrow> store \<Rightarrow> jsval \<Rightarrow> (store \<Rightarrow> reqctx \<Rightarrow> store \<times> response) \<Rightarrow> store \<times> response" where
  \<comment> \<open>\<open>routes.use('*', authenticateUser)\<close>: the handler runs only if the middleware
      calls \<open>next\<close>; otherwise the middleware's response is the answer.\<close>
  "withAuth e st body handler =
     (case authenticateUser e st body of
        Inl r \<Rightarrow> (st, r)
      | Inr c \<Rightarrow> handler st c)"

section \<open>Registration and login\<close>

definition register :: "env \<Rightarrow> store \<Rightarrow> jsval \<Rightarrow> store \<times> response" where
  "register e st body =
     (if \<not> destructurable body then (st, Threw TypeError)
      else
        let uname = getProp body k_username; password = getProp body k_password in
        if \<not> isStr e uname \<or> \<not> isStr e password then (st, bad register_msg_required)
        else
          case uname of
            JString u \<Rightarrow>
              (case password of
                 JString p \<Rightarrow>
                   (if length u < 3 then (st, bad register_msg_username_short)
                    else if length p < 6 then (st, bad register_msg_password_short)
                    else
                      (let uid = toLowerCase e u in
                       if exists_entity (userEntities st) uid then (st, bad register_msg_taken)
                       else
                         (let ph = createHash e p in
                          (case create user_id (userEntities st)
                                  \<lparr>user_id = uid, username = u, passwordHash = ph, noteIds = []\<rparr> of
                             Inl err \<Rightarrow> (st, Threw err)
                           | Inr t \<Rightarrow> (st\<lparr>userEntities := t\<rparr>, ok Success)))))
               | _ \<Rightarrow> (st, Threw TypeError))
          | _ \<Rightarrow> (st, Threw TypeError))"

text \<open>
  \<open>Promise.all\<close> over the reads of the notes: it rejects as soon as one of them does.
  \<open>Boolean\<close> of an object is true, whatever its fields hold.
\<close>

fun promise_all :: "(error + 'a) list \<Rightarrow> error + 'a list" where
  "promise_all [] = Inr []"
| "promise_all (Inl err # rs) = Inl err"
| "promise_all (Inr x # rs) =
     (case promise_all rs of Inl err \<Rightarrow> Inl err | Inr xs \<Rightarrow> Inr (x # xs))"

definition Boolean :: "Note \<Rightarrow> bool" where
  "Boolean n = True"

definition login :: "env \<Rightarrow> store \<Rightarrow> jsval \<Rightarrow> response" where
  "login e st body =
     (if \<not> destructurable body then Threw TypeError
      else
        let uname = getProp body k_username; password = getProp body k_password in
        if \<not> isStr e uname \<or> \<not> isStr e password then bad login_msg_required
        else
          case uname of
            JString u \<Rightarrow>
              (case password of
                 JString p \<Rightarrow>
                   (let uid = toLowerCase e u in
                    if \<not> exists_entity (userEntities st) uid then notFound login_msg_no_user
                    else
                      (case getPasswordHash (userEntities st) uid of
                         Inl err \<Rightarrow> Threw err
                       | Inr storedHash \<Rightarrow>
                           (if storedHash \<noteq> createHash e p then bad login_msg_wrong_password
                            else
                              (case getState (userEntities st) uid of
                                 Inl err \<Rightarrow> Threw err
                               | Inr userState \<Rightarrow>
                                   (case promise_all
                                           (map (\<lambda>noteId. getState (noteEntities st) noteId)
                                              (noteIds userState)) of
                                      Inl err \<Rightarrow> Threw err
                                    | Inr ns \<Rightarrow>
                                        ok (Session (username userState) (filter Boolean ns)))))))
               | _ \<Rightarrow> Threw TypeError)
          | _ \<Rightarrow> Threw TypeError)"

section \<open>Note routes\<close>

text \<open>
  \<open>crypto.randomUUID()\<close> and \<open>new Date().toISOString()\<close> are read from the runtime: the
  handlers take what they returned as the arguments \<open>noteId\<close> and \<open>now\<close>.
\<close>

definition createNote_handler :: "jsstring \<Rightarrow> jsstring \<Rightarrow> store \<Rightarrow> reqctx \<Rightarrow> store \<times> response" where
  "createNote_handler noteId now st c =
     (let newNote = \<lparr>note_id = noteId, title = default_title, content = default_content,
                      userId = ctx_userId c, createdAt = now, updatedAt = now\<rparr> in
      case create note_id (noteEntities st) newNote of
        Inl err \<Rightarrow> (st, Threw err)
      | Inr nt \<Rightarrow>
          (let st1 = st\<lparr>noteEntities := nt\<rparr> in
           (case addNoteId (userEntities st1) (ctx_userEntity c) noteId of
              Inl err \<Rightarrow> (st1, Threw err)
            | Inr ut \<Rightarrow> (st1\<lparr>userEntities := ut\<rparr>, ok (NoteBody newNote)))))"

fun spreadIfString :: "jsval \<Rightarrow> jsstring option" where
  \<comment> \<open>\<open>...(typeof v === 'string' && { v })\<close>: the field is given only for a string.\<close>
  "spreadIfString v =
     (if typeof v = TString then (case v of JString s \<Rightarrow> Some s | _ \<Rightarrow> None) else None)"

definition updateNote_handler :: "jsstring \<Rightarrow> jsstring \<Rightarrow> store \<Rightarrow> reqctx \<Rightarrow> store \<times> response" where
  "updateNote_handler noteId now st c =
     (let title_v = getProp (ctx_body c) k_title; content_v = getProp (ctx_body c) k_content in
      if \<not> exists_entity (noteEntities st) noteId then (st, notFound update_msg_not_found)
      else
        (case getState (noteEntities st) noteId of
           Inl err \<Rightarrow> (st, Threw err)
         | Inr noteState \<Rightarrow>
             (if userId noteState \<noteq> ctx_userId c then (st, Fail 403 update_msg_forbidden)
              else
                (case patch (noteEntities st) noteId
                        \<lparr>p_id = None, p_title = spreadIfString title_v,
                         p_content = spreadIfString content_v, p_userId = None,
                         p_createdAt = None, p_updatedAt = Some now\<rparr> of
                   Inl err \<Rightarrow> (st, Threw err)
                 | Inr nt \<Rightarrow>
                     (let st1 = st\<lparr>noteEntities := nt\<rparr> in
                      (case getState (noteEntities st1) noteId of
                         Inl err \<Rightarrow> (st1, Threw err)
                       | Inr n \<Rightarrow> (st1, ok (NoteBody n))))))))"

definition deleteNote_handler :: "jsstring \<Rightarrow> store \<Rightarrow> reqctx \<Rightarrow> store \<times> response" where
  "deleteNote_handler noteId st c =
     (if \<not> exists_entity (noteEntities st) noteId then (st, notFound delete_msg_not_found)
      else
        (case getState (noteEntities st) noteId of
           Inl err \<Rightarrow> (st, Threw err)
         | Inr noteState \<Rightarrow>
             (if userId noteState \<noteq> ctx_userId c then (st, Fail 403 delete_msg_forbidden)
              else
                (let st1 = st\<lparr>noteEntities := delete_entity (noteEntities st) noteId\<rparr> in
                 (case removeNoteId (userEntities st1) (ctx_userEntity c) noteId of
                    Inl err \<Rightarrow> (st1, Threw err)
                  | Inr ut \<Rightarrow> (st1\<lparr>userEntities := ut\<rparr>, ok Success))))))"

definition createNote :: "env \<Rightarrow> jsstring \<Rightarrow> jsstring \<Rightarrow> store \<Rightarrow> jsval \<Rightarrow> store \<times> response" where
  "createNote e noteId now st body = withAuth e st body (createNote_handler noteId now)"

definition updateNote :: "env \<Rightarrow> jsstring \<Rightarrow> jsstring \<Rightarrow> store \<Rightarrow> jsval \<Rightarrow> store \<times> response" where
  "updateNote e noteId now st body = withAuth e st body (updateNote_handler noteId now)"

definition deleteNote :: "env \<Rightarrow> jsstring \<Rightarrow> store \<Rightarrow> jsval \<Rightarrow> store \<times> response" where
  "deleteNote e noteId st body = withAuth e st body (deleteNote_handler noteId)"

section \<open>User management routes\<close>

definition changePassword_handler :: "env \<Rightarrow> store \<Rightarrow> reqctx \<Rightarrow> store \<times> response" where
  "changePassword_handler e st c =
     (let newPassword = getProp (ctx_body c) k_newPassword in
      if \<not> isStr e newPassword then (st, bad password_msg_short)
      else
        case newPassword of
          JString np \<Rightarrow>
            (if length np < 6 then (st, bad password_msg_short)
             else
               (let newPasswordHash = createHash e np in
                (case updatePasswordHash (userEntities st) (ctx_userEntity c) newPasswordHash of
                   Inl err \<Rightarrow> (st, Threw err)
                 | Inr ut \<Rightarrow> (st\<lparr>userEntities := ut\<rparr>, ok Success))))
        | _ \<Rightarrow> (st, Threw TypeError))"

definition changePassword :: "env \<Rightarrow> store \<Rightarrow> jsval \<Rightarrow> store \<times> response" where
  "changePassword e st body = withAuth e st body (changePassword_handler e)"

section \<open>Sequences of requests\<close>

definition emptyStore :: store where
  \<comment> \<open>The store before any request.\<close>
  "emptyStore = \<lparr>userEntities = \<lparr>recs = Map.empty, index = {}\<rparr>,
                  noteEntities = \<lparr>recs = Map.empty, index = {}\<rparr>\<rparr>"

text \<open>
  The stores that requests can produce: every handler that writes is a step. Login
  writes nothing.
\<close>

inductive reachable :: "env \<Rightarrow> store \<Rightarrow> bool" for e :: env where
  start: "reachable e emptyStore"
| by_register: "reachable e st \<Longrightarrow> reachable e (fst (register e st body))"
| by_createNote: "reachable e st \<Longrightarrow> reachable e (fst (createNote e noteId now st body))"
| by_updateNote: "reachable e st \<Longrightarrow> reachable e (fst (updateNote e noteId now st body))"
| by_deleteNote: "reachable e st \<Longrightarrow> reachable e (fst (deleteNote e noteId st body))"
| by_changePassword: "reachable e st \<Longrightarrow> reachable e (fst (changePassword e st body))"

text \<open>A sequence of create-note requests of one client, each with its generated id and clock reading.\<close>

fun createNotes :: "env \<Rightarrow> store \<Rightarrow> jsval \<Rightarrow> (jsstring \<times> jsstring) list \<Rightarrow> store \<times> response list" where
  "createNotes e st body [] = (st, [])"
| "createNotes e st body ((noteId, now) # reqs) =
     (case createNote e noteId now st body of
        (st1, resp) \<Rightarrow>
          (case createNotes e st1 body reqs of
             (st2, resps) \<Rightarrow> (st2, resp # resps)))"

fun succeeded :: "response \<Rightarrow> bool" where
  "succeeded (Ok d) = True"
| "succeeded r = False"

definition noteIds_ok :: "store \<Rightarrow> bool" where
  \<comment> \<open>Every user's note ids are duplicate-free and name notes of that user.\<close>
  "noteIds_ok st =
     (\<forall>k r. recs (userEntities st) k = Some r \<longrightarrow>
        distinct (noteIds r)
      \<and> (\<forall>i \<in> set (noteIds r). \<exists>n. recs (noteEntities st) i = Some n \<and> userId n = k))"

section \<open>A concrete runtime and concrete requests\<close>

text \<open>
  The theorems below hold for every runtime. To run the handlers on concrete requests,
  one runtime is fixed here: it lower-cases the letters A to Z, encodes a code unit as
  its low byte, and its digest reverses the bytes; its \<open>isStr\<close> asks for a string that
  is not empty.
\<close>

definition asciiLower :: "jsstring \<Rightarrow> jsstring" where
  "asciiLower s = map (\<lambda>c. if 0x41 \<le> c \<and> c \<le> 0x5A then c + 0x20 else c) s"

definition sampleEnv :: env where
  "sampleEnv = \<lparr>toLowerCase = asciiLower, encode = map ucast, sha256 = rev,
                 strOk = (\<lambda>s. s \<noteq> [])\<rparr>"

definition storeOf :: "UserRecord list \<Rightarrow> Note list \<Rightarrow> store" where
  \<comment> \<open>The store that holds the given records, each under its id.\<close>
  "storeOf us ns =
     \<lparr>userEntities = \<lparr>recs = map_of (map (\<lambda>u. (user_id u, u)) us), index = set (map user_id us)\<rparr>,
      noteEntities = \<lparr>recs = map_of (map (\<lambda>n. (note_id n, n)) ns), index = set (map note_id ns)\<rparr>\<rparr>"

definition creds :: "string \<Rightarrow> string \<Rightarrow> jsval" where
  "creds u p = JObject [(k_username, JString (ascii u)), (k_password, JString (ascii p))]"

definition alice :: "jsstring list \<Rightarrow> UserRecord" where
  \<comment> \<open>The record that registering Alice with the password secret1 stores, with the
      given note ids.\<close>
  "alice ids = \<lparr>user_id = ascii ''alice'', username = ascii ''Alice'',
                passwordHash = createHash sampleEnv (ascii ''secret1''), noteIds = ids\<rparr>"

definition withFields :: "jsval \<Rightarrow> (jsstring \<times> jsval) list \<Rightarrow> jsval" where
  \<comment> \<open>A request body with further fields.\<close>
  "withFields body kvs = (case body of JObject fs \<Rightarrow> JObject (fs @ kvs) | v \<Rightarrow> v)"

definition changeTo :: "string \<Rightarrow> string \<Rightarrow> string \<Rightarrow> jsval" where
  \<comment> \<open>The body of a password change.\<close>
  "changeTo u p np = withFields (creds u p) [(k_newPassword, JString (ascii np))]"

definition aliceWith :: "string \<Rightarrow> UserRecord" where
  \<comment> \<open>Alice's record after a change to the given password.\<close>
  "aliceWith p = (alice [])\<lparr>passwordHash := createHash sampleEnv (ascii p)\<rparr>"

definition note1 :: Note where
  \<comment> \<open>The note that Alice's first create-note request stores.\<close>
  "note1 = \<lparr>note_id = ascii ''n1'', title = default_title, content = default_content,
            userId = ascii ''alice'',
            createdAt = ascii ''2025-09-28T07:30:08.000Z'',
            updatedAt = ascii ''2025-09-28T07:30:08.000Z''\<rparr>"

definition bobNote :: Note where
  \<comment> \<open>A note of another user.\<close>
  "bobNote = \<lparr>note_id = ascii ''n2'', title = ascii ''Private'', content = ascii ''Bob only'',
              userId = ascii ''bob'',
              createdAt = ascii ''2025-09-28T07:30:08.000Z'',
              updatedAt = ascii ''2025-09-28T07:30:08.000Z''\<rparr>"

definition yildiz :: jsstring where
  \<comment> \<open>A username with the dotless i, U+0131, twice.\<close>
  "yildiz = ascii ''y'' @ [0x131] @ ascii ''ld'' @ [0x131] @ ascii ''z''"

definition credsOf :: "jsstring \<Rightarrow> jsstring \<Rightarrow> jsval" where
  \<comment> \<open>A request body with the given username and password.\<close>
  "credsOf u p = JObject [(k_username, JString u), (k_password, JString p)]"

definition sampleUpper :: "jsstring \<Rightarrow> jsstring" where
  \<comment> \<open>\<open>String.prototype.toUpperCase\<close> on the letters a to z and on the dotless i,
      which it maps to I.\<close>
  "sampleUpper s = map (\<lambda>c. if 0x61 \<le> c \<and> c \<le> 0x7A then c - 0x20
                             else if c = 0x131 then 0x49 else c) s"

section \<open>Properties of the note-id collection\<close>

lemma set_add_set: "set (set_add s x) = insert x (set s)"
  by (auto simp: set_add_def)

lemma set_add_distinct: "distinct s \<Longrightarrow> distinct (set_add s x)"
  by (simp add: set_add_def)

lemma foldl_set_add_set: "set (foldl set_add acc xs) = set acc \<union> set xs"
  by (induction xs arbitrary: acc) (auto simp: set_add_set)

lemma foldl_set_add_distinct: "distinct acc \<Longrightarrow> distinct (foldl set_add acc xs)"
  by (induction xs arbitrary: acc) (simp_all add: set_add_distinct)

lemma foldl_set_add_id: "distinct (acc @ xs) \<Longrightarrow> foldl set_add acc xs = acc @ xs"
proof (induction xs arbitrary: acc)
  case Nil
  then show ?case by simp
next
  case (Cons x xs)
  have "x \<notin> set acc" using Cons.prems by auto
  then have step: "set_add acc x = acc @ [x]" by (simp add: set_add_def)
  have "distinct ((acc @ [x]) @ xs)" using Cons.prems by auto
  then have "foldl set_add (acc @ [x]) xs = (acc @ [x]) @ xs" by (rule Cons.IH)
  then show ?case by (simp add: step)
qed

lemma new_Set_set: "set (new_Set xs) = set xs"
  by (simp add: new_Set_def foldl_set_add_set)

lemma new_Set_distinct: "distinct (new_Set xs)"
  by (simp add: new_Set_def foldl_set_add_distinct)

lemma new_Set_id: "distinct xs \<Longrightarrow> new_Set xs = xs"
  using foldl_set_add_id [of "[]" xs] by (simp add: new_Set_def)

lemma new_Set_snoc: "distinct xs \<Longrightarrow> new_Set (xs @ [n]) = set_add xs n"
proof -
  assume d: "distinct xs"
  have "new_Set (xs @ [n]) = set_add (foldl set_add [] xs) n"
    by (simp add: new_Set_def)
  also have "foldl set_add [] xs = xs"
    using foldl_set_add_id [of "[]" xs] d by simp
  finally show ?thesis .
qed

lemma addNoteId_tr_noteIds: "noteIds (addNoteId_tr n s) = new_Set (noteIds s @ [n])"
  by (simp add: addNoteId_tr_def)

lemma addNoteId_tr_always_distinct: "distinct (noteIds (addNoteId_tr n s))"
  by (simp add: addNoteId_tr_noteIds new_Set_distinct)

section \<open>Registration and login: properties\<close>

lemma getProp_JString_destructurable: "getProp body k = JString s \<Longrightarrow> destructurable body"
  by (cases body) simp_all

lemma authenticateUser_strings:
  assumes "getProp body k_username = JString u" "getProp body k_password = JString p"
  shows "authenticateUser e st body =
          (if \<not> strOk e u \<or> \<not> strOk e p then Inl (bad auth_msg_required)
           else case recs (userEntities st) (toLowerCase e u) of
                  None \<Rightarrow> Inl (notFound auth_msg_no_user)
                | Some r \<Rightarrow>
                    if passwordHash r \<noteq> createHash e p then Inl (bad auth_msg_wrong_password)
                    else Inr \<lparr>ctx_userEntity = toLowerCase e u, ctx_userId = toLowerCase e u,
                              ctx_body = body\<rparr>)"
  using assms getProp_JString_destructurable [OF assms(1)]
  by (simp add: authenticateUser_def Let_def exists_entity_def getPasswordHash_def getState_def
           split: option.splits)

lemma isStr_JString: "isStr e v \<Longrightarrow> \<exists>s. v = JString s \<and> strOk e s"
  by (cases v) simp_all

lemma authenticateUser_InrD:
  assumes "authenticateUser e st body = Inr c"
  shows "\<exists>u p r. getProp body k_username = JString u \<and> getProp body k_password = JString p
           \<and> strOk e u \<and> strOk e p
           \<and> recs (userEntities st) (toLowerCase e u) = Some r
           \<and> passwordHash r = createHash e p
           \<and> c = \<lparr>ctx_userEntity = toLowerCase e u, ctx_userId = toLowerCase e u, ctx_body = body\<rparr>"
proof -
  have d: "destructurable body"
    using assms by (auto simp: authenticateUser_def split: if_splits)
  have s: "isStr e (getProp body k_username) \<and> isStr e (getProp body k_password)"
    using assms d by (auto simp: authenticateUser_def Let_def split: if_splits)
  from s obtain u where u: "getProp body k_username = JString u" "strOk e u"
    using isStr_JString by blast
  from s obtain p where p: "getProp body k_password = JString p" "strOk e p"
    using isStr_JString by blast
  show ?thesis
    using assms u p authenticateUser_strings [OF u(1) p(1), of e st]
    by (auto split: option.splits if_splits)
qed

lemma register_strings:
  assumes "getProp body k_username = JString u" "getProp body k_password = JString p"
  shows "register e st body =
          (if \<not> strOk e u \<or> \<not> strOk e p then (st, bad register_msg_required)
           else if length u < 3 then (st, bad register_msg_username_short)
           else if length p < 6 then (st, bad register_msg_password_short)
           else if exists_entity (userEntities st) (toLowerCase e u)
             then (st, bad register_msg_taken)
           else (st\<lparr>userEntities := (userEntities st)
                    \<lparr>recs := (recs (userEntities st))
                       (toLowerCase e u \<mapsto>
                          \<lparr>user_id = toLowerCase e u, username = u,
                           passwordHash = createHash e p, noteIds = []\<rparr>),
                     index := insert (toLowerCase e u) (index (userEntities st))\<rparr>\<rparr>,
                 Ok Success))"
  using assms getProp_JString_destructurable [OF assms(1)]
  by (simp add: register_def Let_def exists_entity_def create_def ok_def)

text \<open>
  Claim C3, as amended. Registration fails, leaving the store as it is, when the
  username has fewer than 3 code units, when the password has fewer than 6, or when a
  user record exists under the lower-cased username. Otherwise it stores, under the
  lower-cased username, a record with that id, the username as given, the digest of
  the password and no note ids, and answers with success; after that a registration
  with any username that lower-cases to the same key fails.
\<close>

theorem register_contract:
  assumes "getProp body k_username = JString u" "getProp body k_password = JString p"
  shows "(length u < 3 \<or> length p < 6 \<or> exists_entity (userEntities st) (toLowerCase e u)
            \<longrightarrow> fst (register e st body) = st
              \<and> snd (register e st body) \<in>
                   {bad register_msg_required, bad register_msg_username_short,
                    bad register_msg_password_short, bad register_msg_taken})
       \<and> (3 \<le> length u \<and> 6 \<le> length p \<and> strOk e u \<and> strOk e p
            \<and> \<not> exists_entity (userEntities st) (toLowerCase e u)
            \<longrightarrow> register e st body =
                  (st\<lparr>userEntities := (userEntities st)
                      \<lparr>recs := (recs (userEntities st))
                         (toLowerCase e u \<mapsto>
                            \<lparr>user_id = toLowerCase e u, username = u,
                             passwordHash = createHash e p, noteIds = []\<rparr>),
                       index := insert (toLowerCase e u) (index (userEntities st))\<rparr>\<rparr>,
                   Ok Success)
              \<and> (\<forall>body' u' p'.
                    getProp body' k_username = JString u' \<and> getProp body' k_password = JString p'
                    \<and> toLowerCase e u' = toLowerCase e u
                    \<longrightarrow> fst (register e (fst (register e st body)) body') = fst (register e st body)
                      \<and> snd (register e (fst (register e st body)) body') \<in>
                           {bad register_msg_required, bad register_msg_username_short,
                            bad register_msg_password_short, bad register_msg_taken}))"
proof (intro conjI impI allI)
  assume "length u < 3 \<or> length p < 6 \<or> exists_entity (userEntities st) (toLowerCase e u)"
  then show "fst (register e st body) = st"
    by (auto simp: register_strings [OF assms])
next
  assume "length u < 3 \<or> length p < 6 \<or> exists_entity (userEntities st) (toLowerCase e u)"
  then show "snd (register e st body) \<in>
                   {bad register_msg_required, bad register_msg_username_short,
                    bad register_msg_password_short, bad register_msg_taken}"
    by (auto simp: register_strings [OF assms])
next
  assume h: "3 \<le> length u \<and> 6 \<le> length p \<and> strOk e u \<and> strOk e p
            \<and> \<not> exists_entity (userEntities st) (toLowerCase e u)"
  then show "register e st body =
                  (st\<lparr>userEntities := (userEntities st)
                      \<lparr>recs := (recs (userEntities st))
                         (toLowerCase e u \<mapsto>
                            \<lparr>user_id = toLowerCase e u, username = u,
                             passwordHash = createHash e p, noteIds = []\<rparr>),
                       index := insert (toLowerCase e u) (index (userEntities st))\<rparr>\<rparr>,
                   Ok Success)"
    by (simp add: register_strings [OF assms])
next
  fix body' u' p'
  assume h: "3 \<le> length u \<and> 6 \<le> length p \<and> strOk e u \<and> strOk e p
            \<and> \<not> exists_entity (userEntities st) (toLowerCase e u)"
  assume b: "getProp body' k_username = JString u' \<and> getProp body' k_password = JString p'
                    \<and> toLowerCase e u' = toLowerCase e u"
  have ex: "exists_entity (userEntities (fst (register e st body))) (toLowerCase e u')"
    using h b by (simp add: register_strings [OF assms] exists_entity_def)
  have r: "register e (fst (register e st body)) body' =
        (if \<not> strOk e u' \<or> \<not> strOk e p' then (fst (register e st body), bad register_msg_required)
           else if length u' < 3 then (fst (register e st body), bad register_msg_username_short)
           else if length p' < 6 then (fst (register e st body), bad register_msg_password_short)
           else (fst (register e st body), bad register_msg_taken))"
    using b ex by (simp add: register_strings [of body' u' p'])
  show "fst (register e (fst (register e st body)) body') = fst (register e st body)"
    by (simp add: r)
  show "snd (register e (fst (register e st body)) body') \<in>
                           {bad register_msg_required, bad register_msg_username_short,
                            bad register_msg_password_short, bad register_msg_taken}"
    by (simp add: r)
qed

lemma getProp_creds:
  "getProp (creds u p) k_username = JString (ascii u)"
  "getProp (creds u p) k_password = JString (ascii p)"
  by (simp_all add: creds_def k_username_def k_password_def ascii_def)

lemmas sample_defs = sampleEnv_def asciiLower_def alice_def storeOf_def ascii_def
  createHash_def hexByte_def hexDigit_def

theorem register_contract_witness:
  "register sampleEnv (storeOf [] []) (creds ''Alice'' ''secret1'') = (storeOf [alice []] [], Ok Success)
   \<and> snd (register sampleEnv (storeOf [alice []] []) (creds ''ALICE'' ''another1''))
       \<in> {bad register_msg_required, bad register_msg_username_short,
          bad register_msg_password_short, bad register_msg_taken}"
proof -
  note t = register_contract [OF getProp_creds [of "''Alice''" "''secret1''"],
                 where e = sampleEnv and st = "storeOf [] []"]
  have h: "3 \<le> length (ascii ''Alice'') \<and> 6 \<le> length (ascii ''secret1'')
           \<and> strOk sampleEnv (ascii ''Alice'') \<and> strOk sampleEnv (ascii ''secret1'')
           \<and> \<not> exists_entity (userEntities (storeOf [] [])) (toLowerCase sampleEnv (ascii ''Alice''))"
    by (simp add: sample_defs exists_entity_def)
  have l: "toLowerCase sampleEnv (ascii ''ALICE'') = toLowerCase sampleEnv (ascii ''Alice'')"
    by (simp add: sample_defs)
  from t h have r: "register sampleEnv (storeOf [] []) (creds ''Alice'' ''secret1'') =
      ((storeOf [] [])\<lparr>userEntities := (userEntities (storeOf [] []))
           \<lparr>recs := (recs (userEntities (storeOf [] [])))
              (toLowerCase sampleEnv (ascii ''Alice'') \<mapsto>
                 \<lparr>user_id = toLowerCase sampleEnv (ascii ''Alice''), username = ascii ''Alice'',
                  passwordHash = createHash sampleEnv (ascii ''secret1''), noteIds = []\<rparr>),
            index := insert (toLowerCase sampleEnv (ascii ''Alice'')) (index (userEntities (storeOf [] [])))\<rparr>\<rparr>,
       Ok Success)"
    by blast
  have e: "fst (register sampleEnv (storeOf [] []) (creds ''Alice'' ''secret1'')) = storeOf [alice []] []"
    unfolding r by (simp add: sample_defs)
  from t h l getProp_creds [of "''ALICE''" "''another1''"]
  have "snd (register sampleEnv (fst (register sampleEnv (storeOf [] []) (creds ''Alice'' ''secret1'')))
               (creds ''ALICE'' ''another1''))
       \<in> {bad register_msg_required, bad register_msg_username_short,
          bad register_msg_password_short, bad register_msg_taken}"
    by blast
  then show ?thesis using r e by simp
qed

lemma getProp_credsOf:
  "getProp (credsOf u p) k_username = JString u"
  "getProp (credsOf u p) k_password = JString p"
  by (simp_all add: credsOf_def k_username_def k_password_def ascii_def)

text \<open>
  Claim C3 says that a second registration with the same username in any casing fails.
  The key is the lower-cased username, and two casings of one name need not lower-case
  to the same string: the upper-casing of the name written with the dotless i is
  YILDIZ, which lower-cases to the name with the dotted i. Both register.
\<close>

theorem both_casings_register:
  "sampleUpper yildiz = ascii ''YILDIZ''
   \<and> snd (register sampleEnv emptyStore (credsOf yildiz (ascii ''secret1''))) = Ok Success
   \<and> snd (register sampleEnv
            (fst (register sampleEnv emptyStore (credsOf yildiz (ascii ''secret1''))))
            (credsOf (ascii ''YILDIZ'') (ascii ''secret1''))) = Ok Success"
proof -
  have u: "sampleUpper yildiz = ascii ''YILDIZ''"
    by (simp add: sampleUpper_def yildiz_def ascii_def)
  have 1: "register sampleEnv emptyStore (credsOf yildiz (ascii ''secret1''))
           = (emptyStore\<lparr>userEntities := (userEntities emptyStore)
                 \<lparr>recs := (recs (userEntities emptyStore))
                    (yildiz \<mapsto> \<lparr>user_id = yildiz, username = yildiz,
                               passwordHash = createHash sampleEnv (ascii ''secret1''), noteIds = []\<rparr>),
                  index := insert yildiz (index (userEntities emptyStore))\<rparr>\<rparr>, Ok Success)"
    by (simp add: register_strings [OF getProp_credsOf] emptyStore_def exists_entity_def
          sampleEnv_def asciiLower_def yildiz_def ascii_def)
  have 2: "snd (register sampleEnv
            (fst (register sampleEnv emptyStore (credsOf yildiz (ascii ''secret1''))))
            (credsOf (ascii ''YILDIZ'') (ascii ''secret1''))) = Ok Success"
    unfolding 1
    by (simp add: register_strings [OF getProp_credsOf] emptyStore_def exists_entity_def
          sampleEnv_def asciiLower_def yildiz_def ascii_def)
  from u 1 2 show ?thesis by simp
qed

lemma promise_all_getState_all:
  "(\<forall>k \<in> set ids. recs t k \<noteq> None)
   \<Longrightarrow> promise_all (map (\<lambda>k. getState t k) ids) = Inr (map (\<lambda>k. the (recs t k)) ids)"
  by (induction ids) (auto simp: getState_def)

lemma promise_all_getState_missing:
  "k \<in> set ids \<Longrightarrow> recs t k = None \<Longrightarrow> promise_all (map (\<lambda>k. getState t k) ids) = Inl NotFound"
proof (induction ids)
  case Nil
  then show ?case by simp
next
  case (Cons i ids)
  show ?case
  proof (cases "recs t i")
    case None
    then show ?thesis by (simp add: getState_def)
  next
    case (Some v)
    then have "k \<in> set ids" using Cons.prems by auto
    then have "promise_all (map (\<lambda>k. getState t k) ids) = Inl NotFound"
      using Cons.IH Cons.prems by simp
    then show ?thesis using Some by (simp add: getState_def)
  qed
qed

lemma filter_Boolean: "filter Boolean ns = ns"
  by (simp add: Boolean_def)

lemma login_strings:
  assumes "getProp body k_username = JString u" "getProp body k_password = JString p"
  shows "login e st body =
          (if \<not> strOk e u \<or> \<not> strOk e p then bad login_msg_required
           else case recs (userEntities st) (toLowerCase e u) of
                  None \<Rightarrow> notFound login_msg_no_user
                | Some r \<Rightarrow>
                    if passwordHash r \<noteq> createHash e p then bad login_msg_wrong_password
                    else (case promise_all (map (\<lambda>noteId. getState (noteEntities st) noteId) (noteIds r)) of
                            Inl err \<Rightarrow> Threw err
                          | Inr ns \<Rightarrow> Ok (Session (username r) ns)))"
  using assms getProp_JString_destructurable [OF assms(1)]
  by (simp add: login_def Let_def exists_entity_def getPasswordHash_def getState_def ok_def
        filter_Boolean split: option.splits sum.splits)

lemma login_dangling_note_id:
  assumes "getProp body k_username = JString u" "getProp body k_password = JString p"
    and "strOk e u" "strOk e p"
    and "recs (userEntities st) (toLowerCase e u) = Some r"
    and "passwordHash r = createHash e p"
    and "k \<in> set (noteIds r)" "recs (noteEntities st) k = None"
  shows "login e st body = Threw NotFound"
  using assms(3-6) promise_all_getState_missing [OF assms(7,8)]
  by (simp add: login_strings [OF assms(1,2)])

lemma filter_Boolean_keeps_all:
  "promise_all (map rd ids) = Inr ns \<Longrightarrow> length (filter Boolean ns) = length ids"
proof (induction ids arbitrary: ns)
  case Nil
  then show ?case by simp
next
  case (Cons i ids)
  then show ?case
    by (cases "rd i"; cases "promise_all (map rd ids)") (auto simp: Boolean_def)
qed

lemma login_hydrates:
  assumes "getProp body k_username = JString u" "getProp body k_password = JString p"
    and "strOk e u" "strOk e p"
    and "recs (userEntities st) (toLowerCase e u) = Some r"
    and "passwordHash r = createHash e p"
    and "\<forall>k \<in> set (noteIds r). recs (noteEntities st) k \<noteq> None"
  shows "login e st body =
           Ok (Session (username r) (map (\<lambda>k. the (recs (noteEntities st) k)) (noteIds r)))"
  using assms(3-6) promise_all_getState_all [OF assms(7)]
  by (simp add: login_strings [OF assms(1,2)])

text \<open>
  Claim C1. With correct credentials login returns the notes of the user's note ids; a
  note id whose record is missing is dropped and does not make the login fail. The
  handler does filter the resolved notes with \<open>Boolean\<close>, but a read resolves to a note
  object or rejects, so the filter never drops anything, and the rejected read of the
  missing record rejects \<open>Promise.all\<close>: for Alice, whose only note id \<open>n1\<close> has no
  record, login with her password ends in the NotFound exception instead of an empty
  list of notes.
\<close>

theorem login_fails_on_dangling_note_id:
  "login sampleEnv (storeOf [alice [ascii ''n1'']] []) (creds ''Alice'' ''secret1'') = Threw NotFound"
  by (rule login_dangling_note_id
        [OF getProp_creds, where r = "alice [ascii ''n1'']" and k = "ascii ''n1''"])
     (simp_all add: sample_defs)

theorem login_fails_on_dangling_note_id_witness:
  "login sampleEnv (storeOf [alice [ascii ''n1'']] []) (creds ''Alice'' ''secret1'')
     \<noteq> Ok (Session (ascii ''Alice'') [])"
  using login_fails_on_dangling_note_id by simp

text \<open>
  Claim C2. On login and in the authentication middleware, the message of the failure
  for a username that resolves to no user record is the message of the failure for a
  user that exists with a stored digest other than the digest of the given password.
\<close>

theorem same_message_for_no_user_and_wrong_password:
  assumes "getProp body k_username = JString u" "getProp body k_password = JString p"
    and "recs (userEntities st1) (toLowerCase e u) = None"
    and "recs (userEntities st2) (toLowerCase e u) = Some r"
    and "passwordHash r \<noteq> createHash e p"
  shows "message (login e st1 body) = message (login e st2 body)
       \<and> message (login e st1 body) \<noteq> None
       \<and> (\<exists>r1 r2. authenticateUser e st1 body = Inl r1 \<and> authenticateUser e st2 body = Inl r2
             \<and> message r1 = message r2 \<and> message r1 \<noteq> None)"
  using assms(3-5)
  by (simp add: login_strings [OF assms(1,2)] authenticateUser_strings [OF assms(1,2)]
        bad_def notFound_def login_msg_no_user_def login_msg_wrong_password_def
        auth_msg_no_user_def auth_msg_wrong_password_def)

theorem same_message_for_no_user_and_wrong_password_witness:
  "message (login sampleEnv (storeOf [] []) (creds ''Alice'' ''wrong-password''))
     = message (login sampleEnv (storeOf [alice []] []) (creds ''Alice'' ''wrong-password''))
   \<and> login sampleEnv (storeOf [] []) (creds ''Alice'' ''wrong-password'') = Fail 404 login_msg_no_user
   \<and> login sampleEnv (storeOf [alice []] []) (creds ''Alice'' ''wrong-password'') = Fail 400 login_msg_wrong_password"
proof -
  have a: "recs (userEntities (storeOf [] [])) (toLowerCase sampleEnv (ascii ''Alice'')) = None"
    by (simp add: sample_defs)
  have b: "recs (userEntities (storeOf [alice []] [])) (toLowerCase sampleEnv (ascii ''Alice'')) = Some (alice [])"
    by (simp add: sample_defs)
  have c: "passwordHash (alice []) \<noteq> createHash sampleEnv (ascii ''wrong-password'')"
    by (simp add: sample_defs)
  note t = same_message_for_no_user_and_wrong_password [OF getProp_creds a b c]
  have d: "login sampleEnv (storeOf [] []) (creds ''Alice'' ''wrong-password'') = Fail 404 login_msg_no_user"
    using a by (simp add: login_strings [OF getProp_creds] notFound_def sample_defs)
  have f: "login sampleEnv (storeOf [alice []] []) (creds ''Alice'' ''wrong-password'') = Fail 400 login_msg_wrong_password"
    using b c by (simp add: login_strings [OF getProp_creds] bad_def sample_defs)
  from t d f show ?thesis by simp
qed

section \<open>Note creation: properties\<close>

lemma withAuth_Inr: "authenticateUser e st body = Inr c \<Longrightarrow> withAuth e st body h = h st c"
  by (simp add: withAuth_def)

lemma withAuth_Inl: "authenticateUser e st body = Inl r \<Longrightarrow> withAuth e st body h = (st, r)"
  by (simp add: withAuth_def)

lemma authenticateUser_ctx:
  assumes "authenticateUser e st body = Inr c"
  shows "ctx_userEntity c = ctx_userId c" "ctx_body c = body"
    "\<exists>r. recs (userEntities st) (ctx_userId c) = Some r"
  using authenticateUser_InrD [OF assms] by auto

lemma createNote_handler_fresh:
  assumes "recs (noteEntities st) noteId = None"
    and "recs (userEntities st) (ctx_userEntity c) = Some r"
  shows "createNote_handler noteId now st c =
           (st\<lparr>noteEntities := (noteEntities st)
                 \<lparr>recs := (recs (noteEntities st))
                    (noteId \<mapsto> \<lparr>note_id = noteId, title = default_title, content = default_content,
                                userId = ctx_userId c, createdAt = now, updatedAt = now\<rparr>),
                  index := insert noteId (index (noteEntities st))\<rparr>,
               userEntities := (userEntities st)
                 \<lparr>recs := (recs (userEntities st))(ctx_userEntity c \<mapsto> addNoteId_tr noteId r)\<rparr>\<rparr>,
            Ok (NoteBody \<lparr>note_id = noteId, title = default_title, content = default_content,
                          userId = ctx_userId c, createdAt = now, updatedAt = now\<rparr>))"
  using assms
  by (simp add: createNote_handler_def Let_def create_def addNoteId_def mutate_def getState_def ok_def)

lemma createNote_handler_taken:
  "recs (noteEntities st) noteId \<noteq> None
   \<Longrightarrow> createNote_handler noteId now st c = (st, Threw AlreadyExists)"
  by (simp add: createNote_handler_def Let_def create_def)

lemma createNote_cases:
  assumes "authenticateUser e st body = Inr c"
    and "recs (userEntities st) (ctx_userId c) = Some r"
  shows "createNote e noteId now st body =
           (if recs (noteEntities st) noteId = None
            then (st\<lparr>noteEntities := (noteEntities st)
                      \<lparr>recs := (recs (noteEntities st))
                         (noteId \<mapsto> \<lparr>note_id = noteId, title = default_title, content = default_content,
                                     userId = ctx_userId c, createdAt = now, updatedAt = now\<rparr>),
                       index := insert noteId (index (noteEntities st))\<rparr>,
                    userEntities := (userEntities st)
                      \<lparr>recs := (recs (userEntities st))
                         (ctx_userId c \<mapsto> r\<lparr>noteIds := new_Set (noteIds r @ [noteId])\<rparr>)\<rparr>\<rparr>,
                  Ok (NoteBody \<lparr>note_id = noteId, title = default_title, content = default_content,
                               userId = ctx_userId c, createdAt = now, updatedAt = now\<rparr>))
            else (st, Threw AlreadyExists))"
proof -
  have k: "ctx_userEntity c = ctx_userId c"
    using authenticateUser_ctx(1) [OF assms(1)] .
  have ent: "recs (userEntities st) (ctx_userEntity c) = Some r"
    using assms(2) k by simp
  have h: "createNote e noteId now st body = createNote_handler noteId now st c"
    by (simp add: createNote_def withAuth_Inr [OF assms(1)])
  show ?thesis
  proof (cases "recs (noteEntities st) noteId = None")
    case True
    show ?thesis
      unfolding h createNote_handler_fresh [OF True ent] k
      using True by (simp add: addNoteId_tr_def)
  next
    case False
    then show ?thesis
      unfolding h by (simp add: createNote_handler_taken)
  qed
qed

lemma authenticateUser_user:
  assumes "authenticateUser e st body = Inr c"
  shows "\<exists>r. recs (userEntities st) (ctx_userId c) = Some r"
  using authenticateUser_ctx(3) [OF assms] .

text \<open>
  Claim C5. An authenticated create-note request creates and returns a note exactly
  when no note record has the generated id, so the id of a created note is new. The
  note returned is then the note stored under that id: it has the generated id, the
  default title (the letter U+0130 followed by \<open>simsiz Not\<close>), the placeholder content,
  \<open>createdAt\<close> and \<open>updatedAt\<close> both equal to the current time, and the lower-cased
  username as \<open>userId\<close>; and the owner's note ids are the old ones with the new id
  added, at the end when the old ones are duplicate-free. When a record has the id
  already, nothing is written and the request ends in the AlreadyExists exception.
\<close>

theorem createNote_contract:
  assumes "authenticateUser e st body = Inr c"
    and "getProp body k_username = JString u"
    and "recs (userEntities st) (toLowerCase e u) = Some r"
  shows "createNote e noteId now st body =
           (if recs (noteEntities st) noteId = None
            then (st\<lparr>noteEntities := (noteEntities st)
                       \<lparr>recs := (recs (noteEntities st))
                          (noteId \<mapsto> \<lparr>note_id = noteId, title = default_title,
                                      content = default_content, userId = toLowerCase e u,
                                      createdAt = now, updatedAt = now\<rparr>),
                        index := insert noteId (index (noteEntities st))\<rparr>,
                     userEntities := (userEntities st)
                       \<lparr>recs := (recs (userEntities st))
                          (toLowerCase e u \<mapsto> r\<lparr>noteIds := new_Set (noteIds r @ [noteId])\<rparr>)\<rparr>\<rparr>,
                  Ok (NoteBody \<lparr>note_id = noteId, title = default_title, content = default_content,
                                userId = toLowerCase e u, createdAt = now, updatedAt = now\<rparr>))
            else (st, Threw AlreadyExists))
       \<and> (succeeded (snd (createNote e noteId now st body))
            \<longleftrightarrow> recs (noteEntities st) noteId = None)
       \<and> ctx_userId c = toLowerCase e u
       \<and> default_title = 0x130 # ascii ''simsiz Not''
       \<and> noteId \<in> set (new_Set (noteIds r @ [noteId]))
       \<and> (distinct (noteIds r) \<and> noteId \<notin> set (noteIds r)
            \<longrightarrow> new_Set (noteIds r @ [noteId]) = noteIds r @ [noteId])"
proof -
  from authenticateUser_InrD [OF assms(1)] assms(2)
  have c: "c = \<lparr>ctx_userEntity = toLowerCase e u, ctx_userId = toLowerCase e u, ctx_body = body\<rparr>"
    by auto
  have u: "ctx_userId c = toLowerCase e u"
    using c by simp
  have r: "recs (userEntities st) (ctx_userId c) = Some r"
    using assms(3) u by simp
  note cases = createNote_cases [OF assms(1) r, of noteId now, unfolded u]
  have s: "succeeded (snd (createNote e noteId now st body))
            \<longleftrightarrow> recs (noteEntities st) noteId = None"
    unfolding cases by simp
  have m: "noteId \<in> set (new_Set (noteIds r @ [noteId]))"
    by (simp add: new_Set_set)
  have a: "distinct (noteIds r) \<and> noteId \<notin> set (noteIds r)
            \<longrightarrow> new_Set (noteIds r @ [noteId]) = noteIds r @ [noteId]"
    by (simp add: new_Set_id)
  have t: "default_title = 0x130 # ascii ''simsiz Not''"
    by (simp add: default_title_def)
  from cases s u t m a show ?thesis by blast
qed

lemma auth_alice:
  "authenticateUser sampleEnv (storeOf [alice ids] ns) (creds ''Alice'' ''secret1'') =
     Inr \<lparr>ctx_userEntity = ascii ''alice'', ctx_userId = ascii ''alice'',
          ctx_body = creds ''Alice'' ''secret1''\<rparr>"
  by (simp add: authenticateUser_strings [OF getProp_creds] sample_defs)

theorem createNote_contract_witness:
  "createNote sampleEnv (ascii ''n1'') (ascii ''2025-09-28T07:30:08.000Z'') (storeOf [alice []] [])
     (creds ''Alice'' ''secret1'')
   = (storeOf [alice [ascii ''n1'']] [note1], Ok (NoteBody note1))
   \<and> createNote sampleEnv (ascii ''n1'') (ascii ''2025-09-28T07:31:00.000Z'')
       (storeOf [alice [ascii ''n1'']] [note1]) (creds ''Alice'' ''secret1'')
   = (storeOf [alice [ascii ''n1'']] [note1], Threw AlreadyExists)"
proof -
  have a: "recs (userEntities (storeOf [alice []] [])) (toLowerCase sampleEnv (ascii ''Alice'')) = Some (alice [])"
    by (simp add: sample_defs)
  have f: "recs (noteEntities (storeOf [alice []] [])) (ascii ''n1'') = None"
    by (simp add: sample_defs)
  note t = createNote_contract [OF auth_alice getProp_creds(1) a,
      where now = "ascii ''2025-09-28T07:30:08.000Z''" and noteId = "ascii ''n1''"]
  have l: "toLowerCase sampleEnv (ascii ''Alice'') = ascii ''alice''"
    by (simp add: sample_defs)
  have n: "\<lparr>note_id = ascii ''n1'', title = default_title, content = default_content,
            userId = ascii ''alice'', createdAt = ascii ''2025-09-28T07:30:08.000Z'',
            updatedAt = ascii ''2025-09-28T07:30:08.000Z''\<rparr> = note1"
    by (simp add: note1_def)
  have s: "(storeOf [alice []] [])\<lparr>noteEntities := (noteEntities (storeOf [alice []] []))
                 \<lparr>recs := (recs (noteEntities (storeOf [alice []] [])))(ascii ''n1'' \<mapsto> note1),
                  index := insert (ascii ''n1'') (index (noteEntities (storeOf [alice []] [])))\<rparr>,
               userEntities := (userEntities (storeOf [alice []] []))
                 \<lparr>recs := (recs (userEntities (storeOf [alice []] [])))
                    (ascii ''alice'' \<mapsto> (alice [])\<lparr>noteIds := new_Set (noteIds (alice []) @ [ascii ''n1''])\<rparr>)\<rparr>\<rparr>
         = storeOf [alice [ascii ''n1'']] [note1]"
    by (simp add: storeOf_def alice_def note1_def new_Set_def set_add_def)
  from t f have 1: "createNote sampleEnv (ascii ''n1'') (ascii ''2025-09-28T07:30:08.000Z'')
      (storeOf [alice []] []) (creds ''Alice'' ''secret1'')
      = (storeOf [alice [ascii ''n1'']] [note1], Ok (NoteBody note1))"
    unfolding l n s by simp
  have a2: "recs (userEntities (storeOf [alice [ascii ''n1'']] [note1]))
              (toLowerCase sampleEnv (ascii ''Alice'')) = Some (alice [ascii ''n1''])"
    by (simp add: sample_defs)
  have taken: "recs (noteEntities (storeOf [alice [ascii ''n1'']] [note1])) (ascii ''n1'') \<noteq> None"
    by (simp add: storeOf_def note1_def)
  from createNote_contract [OF auth_alice getProp_creds(1) a2,
      where now = "ascii ''2025-09-28T07:31:00.000Z''" and noteId = "ascii ''n1''"] taken
  have 2: "createNote sampleEnv (ascii ''n1'') (ascii ''2025-09-28T07:31:00.000Z'')
       (storeOf [alice [ascii ''n1'']] [note1]) (creds ''Alice'' ''secret1'')
      = (storeOf [alice [ascii ''n1'']] [note1], Threw AlreadyExists)"
    by auto
  from 1 2 show ?thesis by simp
qed

section \<open>Note update: properties\<close>

lemma merge_update:
  "merge n \<lparr>p_id = None, p_title = a, p_content = b, p_userId = None, p_createdAt = None,
            p_updatedAt = Some now\<rparr>
   = n\<lparr>title := (case a of None \<Rightarrow> title n | Some t \<Rightarrow> t),
       content := (case b of None \<Rightarrow> content n | Some t \<Rightarrow> t),
       updatedAt := now\<rparr>"
  by (cases n) (simp add: merge_def split: option.splits)

lemma updateNote_handler_owned:
  assumes "recs (noteEntities st) noteId = Some n" and "userId n = ctx_userId c"
  shows "updateNote_handler noteId now st c =
           (st\<lparr>noteEntities := (noteEntities st)
                 \<lparr>recs := (recs (noteEntities st))
                    (noteId \<mapsto>
                       n\<lparr>title := (case spreadIfString (getProp (ctx_body c) k_title) of
                                     None \<Rightarrow> title n | Some t \<Rightarrow> t),
                         content := (case spreadIfString (getProp (ctx_body c) k_content) of
                                       None \<Rightarrow> content n | Some t \<Rightarrow> t),
                         updatedAt := now\<rparr>)\<rparr>\<rparr>,
            Ok (NoteBody
                 (n\<lparr>title := (case spreadIfString (getProp (ctx_body c) k_title) of
                                 None \<Rightarrow> title n | Some t \<Rightarrow> t),
                     content := (case spreadIfString (getProp (ctx_body c) k_content) of
                                   None \<Rightarrow> content n | Some t \<Rightarrow> t),
                     updatedAt := now\<rparr>)))"
  using assms
  by (simp add: updateNote_handler_def Let_def exists_entity_def getState_def patch_def
        mutate_def merge_update ok_def del: spreadIfString.simps)

lemma updateNote_owned:
  assumes "authenticateUser e st body = Inr c"
    and "recs (noteEntities st) noteId = Some n" and "userId n = ctx_userId c"
  shows "updateNote e noteId now st body =
           (st\<lparr>noteEntities := (noteEntities st)
                 \<lparr>recs := (recs (noteEntities st))
                    (noteId \<mapsto>
                       n\<lparr>title := (case spreadIfString (getProp body k_title) of
                                     None \<Rightarrow> title n | Some t \<Rightarrow> t),
                         content := (case spreadIfString (getProp body k_content) of
                                       None \<Rightarrow> content n | Some t \<Rightarrow> t),
                         updatedAt := now\<rparr>)\<rparr>\<rparr>,
            Ok (NoteBody
                 (n\<lparr>title := (case spreadIfString (getProp body k_title) of
                                 None \<Rightarrow> title n | Some t \<Rightarrow> t),
                     content := (case spreadIfString (getProp body k_content) of
                                   None \<Rightarrow> content n | Some t \<Rightarrow> t),
                     updatedAt := now\<rparr>)))"
proof -
  have b: "ctx_body c = body"
    using authenticateUser_ctx(2) [OF assms(1)] .
  show ?thesis
    unfolding updateNote_def withAuth_Inr [OF assms(1)] updateNote_handler_owned [OF assms(2,3)] b
    by (rule refl)
qed

text \<open>
  Claim C6, as amended. A successful update leaves \<open>id\<close>, \<open>userId\<close> and \<open>createdAt\<close> as
  they were; the title changes only if the body gives one and the content only if the
  body gives one, and a field that is left out keeps its value; \<open>updatedAt\<close> becomes the
  current time whatever fields were given, and it is not earlier than before whenever
  the clock reading is not earlier than the stored \<open>updatedAt\<close>.
\<close>

theorem updateNote_frame:
  assumes "authenticateUser e st body = Inr c"
    and "recs (noteEntities st) noteId = Some n" and "userId n = ctx_userId c"
  shows "let n' = n\<lparr>title := (case getProp body k_title of JString t \<Rightarrow> t | _ \<Rightarrow> title n),
                     content := (case getProp body k_content of JString t \<Rightarrow> t | _ \<Rightarrow> content n),
                     updatedAt := now\<rparr>
         in updateNote e noteId now st body =
              (st\<lparr>noteEntities := (noteEntities st)
                    \<lparr>recs := (recs (noteEntities st))(noteId \<mapsto> n')\<rparr>\<rparr>,
               Ok (NoteBody n'))
          \<and> note_id n' = note_id n \<and> userId n' = userId n \<and> createdAt n' = createdAt n
          \<and> (getProp body k_title = JUndefined \<longrightarrow> title n' = title n)
          \<and> (getProp body k_content = JUndefined \<longrightarrow> content n' = content n)
          \<and> (title n' \<noteq> title n \<longrightarrow> getProp body k_title = JString (title n'))
          \<and> (content n' \<noteq> content n \<longrightarrow> getProp body k_content = JString (content n'))
          \<and> updatedAt n' = now
          \<and> (updatedAt n \<le> now \<longrightarrow> updatedAt n \<le> updatedAt n')"
proof -
  have t: "(case spreadIfString v of None \<Rightarrow> d | Some t \<Rightarrow> t) = (case v of JString t \<Rightarrow> t | _ \<Rightarrow> d)"
    for v and d :: jsstring
    by (cases v) simp_all
  have 1: "title n' \<noteq> title n \<longrightarrow> v = JString (title n')"
    if "title n' = (case v of JString t \<Rightarrow> t | _ \<Rightarrow> title n)" for v and n' :: Note
    using that by (cases v) simp_all
  have 2: "content n' \<noteq> content n \<longrightarrow> v = JString (content n')"
    if "content n' = (case v of JString t \<Rightarrow> t | _ \<Rightarrow> content n)" for v and n' :: Note
    using that by (cases v) simp_all
  show ?thesis
    unfolding Let_def updateNote_owned [OF assms] t
    by (intro conjI impI; (simp; fail)?) (rule 1 [rule_format] 2 [rule_format]; simp)+
qed

lemma getProp_withFields_creds:
  "getProp (withFields (creds u p) kvs) k_username = JString (ascii u)"
  "getProp (withFields (creds u p) kvs) k_password = JString (ascii p)"
  by (simp_all add: withFields_def creds_def k_username_def k_password_def ascii_def)

lemma auth_alice_with:
  "authenticateUser sampleEnv (storeOf [alice ids] ns) (withFields (creds ''Alice'' ''secret1'') kvs) =
     Inr \<lparr>ctx_userEntity = ascii ''alice'', ctx_userId = ascii ''alice'',
          ctx_body = withFields (creds ''Alice'' ''secret1'') kvs\<rparr>"
  by (simp add: authenticateUser_strings [OF getProp_withFields_creds] sample_defs)

lemma note1_in_store: "recs (noteEntities (storeOf us [note1])) (ascii ''n1'') = Some note1"
  by (simp add: storeOf_def note1_def)

theorem updateNote_frame_witness:
  "updateNote sampleEnv (ascii ''n1'') (ascii ''2025-09-28T07:31:00.000Z'')
     (storeOf [alice [ascii ''n1'']] [note1])
     (withFields (creds ''Alice'' ''secret1'') [(k_title, JString (ascii ''Shopping''))])
   = (storeOf [alice [ascii ''n1'']]
        [note1\<lparr>title := ascii ''Shopping'', updatedAt := ascii ''2025-09-28T07:31:00.000Z''\<rparr>],
      Ok (NoteBody (note1\<lparr>title := ascii ''Shopping'',
                          updatedAt := ascii ''2025-09-28T07:31:00.000Z''\<rparr>)))
   \<and> updatedAt note1 \<le> ascii ''2025-09-28T07:31:00.000Z''"
proof -
  have o: "userId note1 = ctx_userId \<lparr>ctx_userEntity = ascii ''alice'', ctx_userId = ascii ''alice'',
          ctx_body = withFields (creds ''Alice'' ''secret1'') [(k_title, JString (ascii ''Shopping''))]\<rparr>"
    by (simp add: note1_def)
  note t = updateNote_frame [OF auth_alice_with note1_in_store o,
             where now = "ascii ''2025-09-28T07:31:00.000Z''"]
  have g: "getProp (withFields (creds ''Alice'' ''secret1'') [(k_title, JString (ascii ''Shopping''))]) k_title
             = JString (ascii ''Shopping'')"
    "getProp (withFields (creds ''Alice'' ''secret1'') [(k_title, JString (ascii ''Shopping''))]) k_content
             = JUndefined"
    by (simp_all add: withFields_def creds_def k_username_def k_password_def k_title_def k_content_def ascii_def)
  have le: "updatedAt note1 \<le> ascii ''2025-09-28T07:31:00.000Z''"
    by (simp add: note1_def ascii_def)
  have s: "(storeOf [alice [ascii ''n1'']] [note1])\<lparr>noteEntities :=
             (noteEntities (storeOf [alice [ascii ''n1'']] [note1]))
               \<lparr>recs := (recs (noteEntities (storeOf [alice [ascii ''n1'']] [note1])))
                  (ascii ''n1'' \<mapsto> note1\<lparr>title := ascii ''Shopping'',
                        updatedAt := ascii ''2025-09-28T07:31:00.000Z''\<rparr>)\<rparr>\<rparr>
        = storeOf [alice [ascii ''n1'']]
           [note1\<lparr>title := ascii ''Shopping'', updatedAt := ascii ''2025-09-28T07:31:00.000Z''\<rparr>]"
    by (simp add: storeOf_def note1_def)
  from t le show ?thesis
    unfolding Let_def g by (simp add: s)
qed

text \<open>
  Claim C6 says that a successful update refreshes \<open>updatedAt\<close> to the current time and
  that this is never earlier than the previous value. The handler stores whatever the
  clock reads and compares nothing: for a note last written at 07:30:08, an update
  handled when the clock reads 07:30:07 succeeds and moves \<open>updatedAt\<close> back.
\<close>

theorem updatedAt_can_go_back:
  "snd (updateNote sampleEnv (ascii ''n1'') (ascii ''2025-09-28T07:30:07.000Z'')
          (storeOf [alice [ascii ''n1'']] [note1]) (creds ''Alice'' ''secret1''))
     = Ok (NoteBody (note1\<lparr>updatedAt := ascii ''2025-09-28T07:30:07.000Z''\<rparr>))
   \<and> \<not> updatedAt note1 \<le> updatedAt (note1\<lparr>updatedAt := ascii ''2025-09-28T07:30:07.000Z''\<rparr>)"
proof -
  have o: "userId note1 = ctx_userId \<lparr>ctx_userEntity = ascii ''alice'', ctx_userId = ascii ''alice'',
          ctx_body = creds ''Alice'' ''secret1''\<rparr>"
    by (simp add: note1_def)
  have g: "getProp (creds ''Alice'' ''secret1'') k_title = JUndefined"
    "getProp (creds ''Alice'' ''secret1'') k_content = JUndefined"
    by (simp_all add: creds_def k_username_def k_password_def k_title_def k_content_def ascii_def)
  have u: "snd (updateNote sampleEnv (ascii ''n1'') (ascii ''2025-09-28T07:30:07.000Z'')
          (storeOf [alice [ascii ''n1'']] [note1]) (creds ''Alice'' ''secret1''))
     = Ok (NoteBody (note1\<lparr>updatedAt := ascii ''2025-09-28T07:30:07.000Z''\<rparr>))"
    unfolding updateNote_owned [OF auth_alice note1_in_store o] g
    by (simp add: note1_def)
  have l: "\<not> updatedAt note1 \<le> updatedAt (note1\<lparr>updatedAt := ascii ''2025-09-28T07:30:07.000Z''\<rparr>)"
    by (simp add: note1_def ascii_def)
  from u l show ?thesis by simp
qed

section \<open>Ownership checks\<close>

lemma updateNote_handler_missing:
  "recs (noteEntities st) noteId = None
   \<Longrightarrow> updateNote_handler noteId now st c = (st, Fail 404 update_msg_not_found)"
  by (simp add: updateNote_handler_def Let_def exists_entity_def notFound_def)

lemma deleteNote_handler_missing:
  "recs (noteEntities st) noteId = None
   \<Longrightarrow> deleteNote_handler noteId st c = (st, Fail 404 delete_msg_not_found)"
  by (simp add: deleteNote_handler_def exists_entity_def notFound_def)

lemma updateNote_handler_foreign:
  "recs (noteEntities st) noteId = Some n \<Longrightarrow> userId n \<noteq> ctx_userId c
   \<Longrightarrow> updateNote_handler noteId now st c = (st, Fail 403 update_msg_forbidden)"
  by (simp add: updateNote_handler_def Let_def exists_entity_def getState_def)

lemma deleteNote_handler_foreign:
  "recs (noteEntities st) noteId = Some n \<Longrightarrow> userId n \<noteq> ctx_userId c
   \<Longrightarrow> deleteNote_handler noteId st c = (st, Fail 403 delete_msg_forbidden)"
  by (simp add: deleteNote_handler_def exists_entity_def getState_def)

text \<open>
  Claim C7. For an authenticated update or deletion: if no note record has the id, the
  answer is the 404 failure; if the record exists and its \<open>userId\<close> is not the
  authenticated user's id, the answer is the 403 failure, whatever the user's note ids
  hold. In both cases the store is returned as it was.
\<close>

theorem note_mutation_guards:
  assumes "authenticateUser e st body = Inr c"
  shows "(recs (noteEntities st) noteId = None \<longrightarrow>
            updateNote e noteId now st body = (st, Fail 404 update_msg_not_found)
          \<and> deleteNote e noteId st body = (st, Fail 404 delete_msg_not_found))
       \<and> (\<forall>n. recs (noteEntities st) noteId = Some n \<and> userId n \<noteq> ctx_userId c \<longrightarrow>
            updateNote e noteId now st body = (st, Fail 403 update_msg_forbidden)
          \<and> deleteNote e noteId st body = (st, Fail 403 delete_msg_forbidden))"
  by (simp add: updateNote_def deleteNote_def withAuth_Inr [OF assms]
        updateNote_handler_missing deleteNote_handler_missing
        updateNote_handler_foreign deleteNote_handler_foreign)

theorem note_mutation_guards_witness:
  "updateNote sampleEnv (ascii ''n2'') (ascii ''2025-09-28T07:31:00.000Z'')
      (storeOf [alice [ascii ''n2'']] [bobNote]) (creds ''Alice'' ''secret1'')
     = (storeOf [alice [ascii ''n2'']] [bobNote], Fail 403 update_msg_forbidden)
   \<and> deleteNote sampleEnv (ascii ''n2'') (storeOf [alice [ascii ''n2'']] [bobNote])
        (creds ''Alice'' ''secret1'')
     = (storeOf [alice [ascii ''n2'']] [bobNote], Fail 403 delete_msg_forbidden)
   \<and> updateNote sampleEnv (ascii ''n9'') (ascii ''2025-09-28T07:31:00.000Z'')
      (storeOf [alice [ascii ''n2'']] [bobNote]) (creds ''Alice'' ''secret1'')
     = (storeOf [alice [ascii ''n2'']] [bobNote], Fail 404 update_msg_not_found)
   \<and> deleteNote sampleEnv (ascii ''n9'') (storeOf [alice [ascii ''n2'']] [bobNote])
        (creds ''Alice'' ''secret1'')
     = (storeOf [alice [ascii ''n2'']] [bobNote], Fail 404 delete_msg_not_found)"
proof -
  have a: "recs (noteEntities (storeOf [alice [ascii ''n2'']] [bobNote])) (ascii ''n2'') = Some bobNote"
    by (simp add: storeOf_def bobNote_def)
  have b: "userId bobNote \<noteq> ctx_userId \<lparr>ctx_userEntity = ascii ''alice'', ctx_userId = ascii ''alice'',
          ctx_body = creds ''Alice'' ''secret1''\<rparr>"
    by (simp add: bobNote_def ascii_def)
  have c: "recs (noteEntities (storeOf [alice [ascii ''n2'']] [bobNote])) (ascii ''n9'') = None"
    by (simp add: storeOf_def bobNote_def ascii_def)
  from note_mutation_guards [OF auth_alice, where noteId = "ascii ''n2''"] a b
       note_mutation_guards [OF auth_alice, where noteId = "ascii ''n9''"] c
  show ?thesis by blast
qed

section \<open>Note deletion: properties\<close>

lemma deleteNote_handler_owned:
  assumes "recs (noteEntities st) noteId = Some n" and "userId n = ctx_userId c"
    and "recs (userEntities st) (ctx_userEntity c) = Some r"
  shows "deleteNote_handler noteId st c =
           (st\<lparr>noteEntities := (noteEntities st)
                 \<lparr>recs := (recs (noteEntities st))(noteId := None),
                  index := index (noteEntities st) - {noteId}\<rparr>,
               userEntities := (userEntities st)
                 \<lparr>recs := (recs (userEntities st))
                    (ctx_userEntity c \<mapsto> r\<lparr>noteIds := filter (\<lambda>i. i \<noteq> noteId) (noteIds r)\<rparr>)\<rparr>\<rparr>,
            Ok Success)"
  using assms
  by (simp add: deleteNote_handler_def Let_def exists_entity_def getState_def delete_entity_def
        removeNoteId_def removeNoteId_tr_def mutate_def ok_def)

lemma promise_all_getState_Inr:
  "promise_all (map (\<lambda>k. getState t k) ids) = Inr ns
   \<Longrightarrow> ns = map (\<lambda>k. the (recs t k)) ids \<and> (\<forall>k \<in> set ids. recs t k \<noteq> None)"
proof (induction ids arbitrary: ns)
  case Nil
  then show ?case by simp
next
  case (Cons i ids)
  show ?case
  proof (cases "recs t i")
    case None
    then show ?thesis using Cons.prems by (simp add: getState_def)
  next
    case (Some v)
    show ?thesis
    proof (cases "promise_all (map (\<lambda>k. getState t k) ids)")
      case (Inl err)
      then show ?thesis using Cons.prems Some by (simp add: getState_def)
    next
      case (Inr ms)
      then show ?thesis using Cons.prems Some Cons.IH [OF Inr] by (auto simp: getState_def)
    qed
  qed
qed

text \<open>
  Claim C8. When the owner deletes a note, the note record is removed, every occurrence
  of the id is removed from the owner's note ids, and the answer is success. A login of
  the owner after that never returns a note with the deleted id, and when the other
  note ids resolve it returns exactly their notes. Every note is assumed to be stored
  under its own id, as \<open>create\<close> stores it.
\<close>

theorem deleteNote_contract:
  assumes "authenticateUser e st body = Inr c"
    and "recs (userEntities st) (ctx_userId c) = Some r"
    and "recs (noteEntities st) noteId = Some n" and "userId n = ctx_userId c"
    and "\<forall>k m. recs (noteEntities st) k = Some m \<longrightarrow> note_id m = k"
  shows "let r' = r\<lparr>noteIds := filter (\<lambda>i. i \<noteq> noteId) (noteIds r)\<rparr>;
             st' = st\<lparr>noteEntities := (noteEntities st)
                        \<lparr>recs := (recs (noteEntities st))(noteId := None),
                         index := index (noteEntities st) - {noteId}\<rparr>,
                      userEntities := (userEntities st)
                        \<lparr>recs := (recs (userEntities st))(ctx_userId c \<mapsto> r')\<rparr>\<rparr>
         in deleteNote e noteId st body = (st', Ok Success)
          \<and> recs (noteEntities st') noteId = None
          \<and> noteId \<notin> set (noteIds r')
          \<and> (\<forall>name ns. login e st' body = Ok (Session name ns) \<longrightarrow> (\<forall>m \<in> set ns. note_id m \<noteq> noteId))
          \<and> ((\<forall>k \<in> set (noteIds r). k \<noteq> noteId \<longrightarrow> recs (noteEntities st) k \<noteq> None) \<longrightarrow>
               login e st' body =
                 Ok (Session (username r)
                      (map (\<lambda>k. the (recs (noteEntities st) k))
                         (filter (\<lambda>i. i \<noteq> noteId) (noteIds r)))))"
proof -
  define r' where "r' = r\<lparr>noteIds := filter (\<lambda>i. i \<noteq> noteId) (noteIds r)\<rparr>"
  define st' where "st' = st\<lparr>noteEntities := (noteEntities st)
                        \<lparr>recs := (recs (noteEntities st))(noteId := None),
                         index := index (noteEntities st) - {noteId}\<rparr>,
                      userEntities := (userEntities st)
                        \<lparr>recs := (recs (userEntities st))(ctx_userId c \<mapsto> r')\<rparr>\<rparr>"
  from authenticateUser_InrD [OF assms(1)] obtain u p r0 where
    up: "getProp body k_username = JString u" "getProp body k_password = JString p"
        "strOk e u" "strOk e p"
    and r0: "recs (userEntities st) (toLowerCase e u) = Some r0" "passwordHash r0 = createHash e p"
    and c: "c = \<lparr>ctx_userEntity = toLowerCase e u, ctx_userId = toLowerCase e u, ctx_body = body\<rparr>"
    by blast
  have k: "ctx_userId c = toLowerCase e u" "ctx_userEntity c = ctx_userId c"
    using c by simp_all
  have rr: "r0 = r" using r0(1) assms(2) k by simp
  have ent: "recs (userEntities st) (ctx_userEntity c) = Some r"
    using assms(2) k by simp
  have d: "deleteNote e noteId st body = (st', Ok Success)"
    unfolding deleteNote_def withAuth_Inr [OF assms(1)] deleteNote_handler_owned [OF assms(3,4) ent]
    by (simp add: st'_def r'_def k)
  have gone: "recs (noteEntities st') noteId = None"
    by (simp add: st'_def)
  have nin: "noteId \<notin> set (noteIds r')"
    by (simp add: r'_def)
  have user': "recs (userEntities st') (toLowerCase e u) = Some r'"
    using k by (simp add: st'_def)
  have hash': "passwordHash r' = createHash e p"
    using r0(2) rr by (simp add: r'_def)
  have lg: "login e st' body =
              (case promise_all (map (\<lambda>k. getState (noteEntities st') k) (noteIds r')) of
                 Inl err \<Rightarrow> Threw err
               | Inr ns \<Rightarrow> Ok (Session (username r') ns))"
    using up(3,4) user' hash' by (simp add: login_strings [OF up(1,2)])
  have same: "recs (noteEntities st') k = recs (noteEntities st) k" if "k \<noteq> noteId" for k
    using that by (simp add: st'_def)
  have excl: "\<forall>name ns. login e st' body = Ok (Session name ns) \<longrightarrow> (\<forall>m \<in> set ns. note_id m \<noteq> noteId)"
  proof (intro allI impI ballI)
    fix name ns m
    assume ok: "login e st' body = Ok (Session name ns)" and m: "m \<in> set ns"
    from ok lg obtain ms where ms: "promise_all (map (\<lambda>k. getState (noteEntities st') k) (noteIds r')) = Inr ms"
      and "ns = ms"
      by (auto split: sum.splits)
    from promise_all_getState_Inr [OF ms]
    have ns: "ms = map (\<lambda>k. the (recs (noteEntities st') k)) (noteIds r')"
      and all: "\<forall>k \<in> set (noteIds r'). recs (noteEntities st') k \<noteq> None"
      by simp_all
    from m \<open>ns = ms\<close> ns obtain k where kin: "k \<in> set (noteIds r')" and mk: "m = the (recs (noteEntities st') k)"
      by auto
    from kin have kne: "k \<noteq> noteId" by (simp add: r'_def)
    from all kin obtain m' where m': "recs (noteEntities st') k = Some m'" by auto
    then have "recs (noteEntities st) k = Some m'" using same [OF kne] by simp
    then have "note_id m' = k" using assms(5) by blast
    then show "note_id m \<noteq> noteId" using mk m' kne by simp
  qed
  have full: "(\<forall>k \<in> set (noteIds r). k \<noteq> noteId \<longrightarrow> recs (noteEntities st) k \<noteq> None) \<longrightarrow>
               login e st' body =
                 Ok (Session (username r)
                      (map (\<lambda>k. the (recs (noteEntities st) k))
                         (filter (\<lambda>i. i \<noteq> noteId) (noteIds r))))"
  proof
    assume h: "\<forall>k \<in> set (noteIds r). k \<noteq> noteId \<longrightarrow> recs (noteEntities st) k \<noteq> None"
    then have "\<forall>k \<in> set (noteIds r'). recs (noteEntities st') k \<noteq> None"
      by (auto simp: r'_def same)
    from promise_all_getState_all [OF this]
    have "login e st' body = Ok (Session (username r') (map (\<lambda>k. the (recs (noteEntities st') k)) (noteIds r')))"
      by (simp add: lg)
    moreover have "map (\<lambda>k. the (recs (noteEntities st') k)) (noteIds r')
                   = map (\<lambda>k. the (recs (noteEntities st) k)) (noteIds r')"
      by (rule map_cong) (auto simp: r'_def same)
    ultimately show "login e st' body =
                 Ok (Session (username r)
                      (map (\<lambda>k. the (recs (noteEntities st) k))
                         (filter (\<lambda>i. i \<noteq> noteId) (noteIds r))))"
      by (simp add: r'_def)
  qed
  from d gone nin excl full show ?thesis
    unfolding Let_def r'_def [symmetric] st'_def [symmetric] by blast
qed

theorem deleteNote_contract_witness:
  "deleteNote sampleEnv (ascii ''n1'') (storeOf [alice [ascii ''n1'']] [note1]) (creds ''Alice'' ''secret1'')
     = (storeOf [alice []] [], Ok Success)
   \<and> login sampleEnv (storeOf [alice []] []) (creds ''Alice'' ''secret1'')
     = Ok (Session (ascii ''Alice'') [])"
proof -
  have u: "recs (userEntities (storeOf [alice [ascii ''n1'']] [note1]))
             (ctx_userId \<lparr>ctx_userEntity = ascii ''alice'', ctx_userId = ascii ''alice'',
                         ctx_body = creds ''Alice'' ''secret1''\<rparr>) = Some (alice [ascii ''n1''])"
    by (simp add: storeOf_def alice_def)
  have o: "userId note1 = ctx_userId \<lparr>ctx_userEntity = ascii ''alice'', ctx_userId = ascii ''alice'',
          ctx_body = creds ''Alice'' ''secret1''\<rparr>"
    by (simp add: note1_def)
  have inv: "\<forall>k m. recs (noteEntities (storeOf [alice [ascii ''n1'']] [note1])) k = Some m \<longrightarrow> note_id m = k"
    by (auto simp: storeOf_def split: if_splits)
  have rest: "\<forall>k \<in> set (noteIds (alice [ascii ''n1''])). k \<noteq> ascii ''n1'' \<longrightarrow>
                recs (noteEntities (storeOf [alice [ascii ''n1'']] [note1])) k \<noteq> None"
    by (simp add: alice_def)
  have s: "(storeOf [alice [ascii ''n1'']] [note1])
             \<lparr>noteEntities := (noteEntities (storeOf [alice [ascii ''n1'']] [note1]))
                 \<lparr>recs := (recs (noteEntities (storeOf [alice [ascii ''n1'']] [note1])))(ascii ''n1'' := None),
                  index := index (noteEntities (storeOf [alice [ascii ''n1'']] [note1])) - {ascii ''n1''}\<rparr>,
              userEntities := (userEntities (storeOf [alice [ascii ''n1'']] [note1]))
                 \<lparr>recs := (recs (userEntities (storeOf [alice [ascii ''n1'']] [note1])))
                    (ascii ''alice'' \<mapsto> (alice [ascii ''n1''])\<lparr>noteIds := []\<rparr>)\<rparr>\<rparr>
           = storeOf [alice []] []"
    by (simp add: storeOf_def alice_def note1_def)
  note t = deleteNote_contract [OF auth_alice u note1_in_store o inv]
  have f: "filter (\<lambda>i. i \<noteq> ascii ''n1'') (noteIds (alice [ascii ''n1''])) = []"
    "username (alice [ascii ''n1'']) = ascii ''Alice''"
    by (simp_all add: alice_def)
  from t rest show ?thesis
    unfolding Let_def by (simp add: s f)
qed

section \<open>Values that are not strings\<close>

text \<open>
  Claim C10. In an authenticated update of an owned note, a title or content in the
  body that is not of type string is ignored: the update succeeds, that field keeps its
  value, a field given as a string takes that string, and nothing but title, content
  and \<open>updatedAt\<close> can differ from the old note.
\<close>

theorem updateNote_ignores_non_strings:
  assumes "authenticateUser e st body = Inr c"
    and "recs (noteEntities st) noteId = Some n" and "userId n = ctx_userId c"
  shows "\<exists>n'. updateNote e noteId now st body =
                (st\<lparr>noteEntities := (noteEntities st)
                      \<lparr>recs := (recs (noteEntities st))(noteId \<mapsto> n')\<rparr>\<rparr>,
                 Ok (NoteBody n'))
          \<and> (typeof (getProp body k_title) \<noteq> TString \<longrightarrow> title n' = title n)
          \<and> (typeof (getProp body k_content) \<noteq> TString \<longrightarrow> content n' = content n)
          \<and> (\<forall>t. getProp body k_title = JString t \<longrightarrow> title n' = t)
          \<and> (\<forall>t. getProp body k_content = JString t \<longrightarrow> content n' = t)
          \<and> n' = n\<lparr>title := title n', content := content n', updatedAt := now\<rparr>"
proof -
  have a: "typeof v \<noteq> TString \<longrightarrow> (case spreadIfString v of None \<Rightarrow> d | Some t \<Rightarrow> t) = d"
    for v and d :: jsstring
    by (cases v) simp_all
  have b: "\<forall>t. v = JString t \<longrightarrow> (case spreadIfString v of None \<Rightarrow> d | Some t \<Rightarrow> t) = t"
    for v and d :: jsstring
    by (cases v) simp_all
  show ?thesis
    by (rule exI [where x = "n\<lparr>title := (case spreadIfString (getProp body k_title) of
                                 None \<Rightarrow> title n | Some t \<Rightarrow> t),
                     content := (case spreadIfString (getProp body k_content) of
                                   None \<Rightarrow> content n | Some t \<Rightarrow> t),
                     updatedAt := now\<rparr>"])
       (simp add: updateNote_owned [OF assms] a b del: spreadIfString.simps)
qed

theorem updateNote_ignores_non_strings_witness:
  "updateNote sampleEnv (ascii ''n1'') (ascii ''2025-09-28T07:31:00.000Z'')
     (storeOf [alice [ascii ''n1'']] [note1])
     (withFields (creds ''Alice'' ''secret1'')
        [(k_title, JNumber 42), (k_content, JObject [(ascii ''text'', JString (ascii ''hello''))])])
   = (storeOf [alice [ascii ''n1'']] [note1\<lparr>updatedAt := ascii ''2025-09-28T07:31:00.000Z''\<rparr>],
      Ok (NoteBody (note1\<lparr>updatedAt := ascii ''2025-09-28T07:31:00.000Z''\<rparr>)))"
proof -
  let ?body = "withFields (creds ''Alice'' ''secret1'')
        [(k_title, JNumber 42), (k_content, JObject [(ascii ''text'', JString (ascii ''hello''))])]"
  have o: "userId note1 = ctx_userId \<lparr>ctx_userEntity = ascii ''alice'', ctx_userId = ascii ''alice'',
          ctx_body = ?body\<rparr>"
    by (simp add: note1_def)
  have g: "typeof (getProp ?body k_title) \<noteq> TString" "typeof (getProp ?body k_content) \<noteq> TString"
    by (simp_all add: withFields_def creds_def k_username_def k_password_def k_title_def k_content_def ascii_def)
  from updateNote_ignores_non_strings [OF auth_alice_with note1_in_store o,
         where now = "ascii ''2025-09-28T07:31:00.000Z''"] g
  obtain n' where r: "updateNote sampleEnv (ascii ''n1'') (ascii ''2025-09-28T07:31:00.000Z'')
                       (storeOf [alice [ascii ''n1'']] [note1]) ?body =
                ((storeOf [alice [ascii ''n1'']] [note1])
                    \<lparr>noteEntities := (noteEntities (storeOf [alice [ascii ''n1'']] [note1]))
                      \<lparr>recs := (recs (noteEntities (storeOf [alice [ascii ''n1'']] [note1])))
                          (ascii ''n1'' \<mapsto> n')\<rparr>\<rparr>,
                 Ok (NoteBody n'))"
    and t: "title n' = title note1" and c: "content n' = content note1"
    and n': "n' = note1\<lparr>title := title n', content := content n',
                       updatedAt := ascii ''2025-09-28T07:31:00.000Z''\<rparr>"
    by blast
  have e: "n' = note1\<lparr>updatedAt := ascii ''2025-09-28T07:31:00.000Z''\<rparr>"
    using n' t c by (simp add: note1_def)
  show ?thesis
    unfolding r e by (simp add: storeOf_def note1_def)
qed

section \<open>Password change: properties\<close>

lemma changePassword_handler_cases:
  assumes "recs (userEntities st) (ctx_userEntity c) = Some r"
  shows "changePassword_handler e st c =
           (case getProp (ctx_body c) k_newPassword of
              JString np \<Rightarrow>
                if \<not> strOk e np \<or> length np < 6 then (st, Fail 400 password_msg_short)
                else (st\<lparr>userEntities := (userEntities st)
                          \<lparr>recs := (recs (userEntities st))
                             (ctx_userEntity c \<mapsto> r\<lparr>passwordHash := createHash e np\<rparr>)\<rparr>\<rparr>,
                      Ok Success)
            | _ \<Rightarrow> (st, Fail 400 password_msg_short))"
  using assms
  by (cases "getProp (ctx_body c) k_newPassword")
     (simp_all add: changePassword_handler_def Let_def bad_def ok_def updatePasswordHash_def
        updatePasswordHash_tr_def mutate_def getState_def)

text \<open>
  Claim C9, as amended. A password change answers with the middleware's failure, and
  changes nothing, when authentication with the current password fails; once
  authenticated it fails with the 400 validation failure when the new password is not
  an accepted string or has fewer than 6 code units; otherwise it replaces the stored
  digest by the digest of the new password and leaves the rest of the record alone.
  Afterwards authentication for this user fails exactly for the passwords whose digest
  differs from the new one: it succeeds with the new password, and with the old one it
  fails whenever the two digests differ.
\<close>

theorem changePassword_contract:
  assumes "getProp body k_username = JString u" "getProp body k_password = JString p"
  shows "(\<forall>resp. authenticateUser e st body = Inl resp \<longrightarrow> changePassword e st body = (st, resp))
       \<and> (\<forall>c. authenticateUser e st body = Inr c \<longrightarrow>
            (\<not> isStr e (getProp body k_newPassword)
               \<longrightarrow> changePassword e st body = (st, Fail 400 password_msg_short))
          \<and> (\<forall>np r. getProp body k_newPassword = JString np
                  \<and> recs (userEntities st) (toLowerCase e u) = Some r \<longrightarrow>
               (length np < 6 \<longrightarrow> changePassword e st body = (st, Fail 400 password_msg_short))
             \<and> (strOk e np \<and> 6 \<le> length np \<longrightarrow>
                  changePassword e st body =
                    (st\<lparr>userEntities := (userEntities st)
                          \<lparr>recs := (recs (userEntities st))
                             (toLowerCase e u \<mapsto> r\<lparr>passwordHash := createHash e np\<rparr>)\<rparr>\<rparr>,
                     Ok Success)
                \<and> (\<forall>body' q. getProp body' k_username = JString u
                       \<and> getProp body' k_password = JString q \<and> strOk e q \<longrightarrow>
                       (isl (authenticateUser e (fst (changePassword e st body)) body')
                          \<longleftrightarrow> createHash e q \<noteq> createHash e np))
                \<and> (createHash e p \<noteq> createHash e np \<longrightarrow>
                       authenticateUser e (fst (changePassword e st body)) body
                         = Inl (Fail 400 auth_msg_wrong_password)))))"
proof (intro conjI allI impI)
  fix resp
  assume "authenticateUser e st body = Inl resp"
  then show "changePassword e st body = (st, resp)"
    by (simp add: changePassword_def withAuth_Inl)
next
  fix c
  assume a: "authenticateUser e st body = Inr c"
  assume n: "\<not> isStr e (getProp body k_newPassword)"
  from authenticateUser_InrD [OF a] assms obtain r where
    r: "recs (userEntities st) (toLowerCase e u) = Some r"
    and c: "c = \<lparr>ctx_userEntity = toLowerCase e u, ctx_userId = toLowerCase e u, ctx_body = body\<rparr>"
    by auto
  have ent: "recs (userEntities st) (ctx_userEntity c) = Some r" using r c by simp
  have b: "ctx_body c = body" using c by simp
  show "changePassword e st body = (st, Fail 400 password_msg_short)"
    unfolding changePassword_def withAuth_Inr [OF a] changePassword_handler_cases [OF ent] b
    using n by (cases "getProp body k_newPassword") simp_all
next
  fix c np r
  assume a: "authenticateUser e st body = Inr c"
  assume h: "getProp body k_newPassword = JString np \<and> recs (userEntities st) (toLowerCase e u) = Some r"
  from authenticateUser_InrD [OF a] assms have
    c: "c = \<lparr>ctx_userEntity = toLowerCase e u, ctx_userId = toLowerCase e u, ctx_body = body\<rparr>"
    and ok: "strOk e u" "strOk e p"
    by auto
  have ent: "recs (userEntities st) (ctx_userEntity c) = Some r" using h c by simp
  have cp: "changePassword e st body =
              (if \<not> strOk e np \<or> length np < 6 then (st, Fail 400 password_msg_short)
                else (st\<lparr>userEntities := (userEntities st)
                          \<lparr>recs := (recs (userEntities st))
                             (toLowerCase e u \<mapsto> r\<lparr>passwordHash := createHash e np\<rparr>)\<rparr>\<rparr>,
                      Ok Success))"
    unfolding changePassword_def withAuth_Inr [OF a] changePassword_handler_cases [OF ent]
    using h c by simp
  {
    assume "length np < 6"
    then show "changePassword e st body = (st, Fail 400 password_msg_short)"
      by (simp add: cp)
  }
  assume v: "strOk e np \<and> 6 \<le> length np"
  then show s: "changePassword e st body =
                    (st\<lparr>userEntities := (userEntities st)
                          \<lparr>recs := (recs (userEntities st))
                             (toLowerCase e u \<mapsto> r\<lparr>passwordHash := createHash e np\<rparr>)\<rparr>\<rparr>,
                     Ok Success)"
    by (simp add: cp)
  {
    fix body' q
    assume b: "getProp body' k_username = JString u \<and> getProp body' k_password = JString q \<and> strOk e q"
    then show "isl (authenticateUser e (fst (changePassword e st body)) body')
                 \<longleftrightarrow> createHash e q \<noteq> createHash e np"
      using ok(1) by (auto simp: s authenticateUser_strings [of body' u q])
  }
  {
    assume "createHash e p \<noteq> createHash e np"
    then show "authenticateUser e (fst (changePassword e st body)) body
                         = Inl (Fail 400 auth_msg_wrong_password)"
      using ok by (auto simp: s authenticateUser_strings [OF assms] bad_def)
  }
qed

lemma getProp_changeTo:
  "getProp (changeTo u p np) k_username = JString (ascii u)"
  "getProp (changeTo u p np) k_password = JString (ascii p)"
  "getProp (changeTo u p np) k_newPassword = JString (ascii np)"
  by (simp_all add: changeTo_def withFields_def creds_def k_username_def k_password_def
        k_newPassword_def ascii_def)

theorem changePassword_contract_witness:
  "changePassword sampleEnv (storeOf [alice []] []) (changeTo ''Alice'' ''secret1'' ''secret2'')
     = (storeOf [aliceWith ''secret2''] [], Ok Success)
   \<and> authenticateUser sampleEnv (storeOf [aliceWith ''secret2''] []) (changeTo ''Alice'' ''secret1'' ''secret2'')
     = Inl (Fail 400 auth_msg_wrong_password)
   \<and> \<not> isl (authenticateUser sampleEnv (storeOf [aliceWith ''secret2''] []) (creds ''Alice'' ''secret2''))"
proof -
  let ?body = "changeTo ''Alice'' ''secret1'' ''secret2''"
  let ?st = "storeOf [alice []] []"
  note t = changePassword_contract [OF getProp_changeTo(1,2), where e = sampleEnv and st = ?st]
  have a: "authenticateUser sampleEnv ?st ?body =
             Inr \<lparr>ctx_userEntity = ascii ''alice'', ctx_userId = ascii ''alice'', ctx_body = ?body\<rparr>"
    by (simp add: authenticateUser_strings [OF getProp_changeTo(1,2)] sample_defs)
  have r: "recs (userEntities ?st) (toLowerCase sampleEnv (ascii ''Alice'')) = Some (alice [])"
    by (simp add: sample_defs)
  have v: "strOk sampleEnv (ascii ''secret2'') \<and> 6 \<le> length (ascii ''secret2'')"
    by (simp add: sample_defs)
  have d: "createHash sampleEnv (ascii ''secret1'') \<noteq> createHash sampleEnv (ascii ''secret2'')"
    by (simp add: sample_defs)
  have q: "getProp (creds ''Alice'' ''secret2'') k_username = JString (ascii ''Alice'')
           \<and> getProp (creds ''Alice'' ''secret2'') k_password = JString (ascii ''secret2'')
           \<and> strOk sampleEnv (ascii ''secret2'')"
    by (simp add: getProp_creds sample_defs)
  from t a r v getProp_changeTo(3) [of "''Alice''" "''secret1''" "''secret2''"]
  have 1: "changePassword sampleEnv ?st ?body =
                    (?st\<lparr>userEntities := (userEntities ?st)
                          \<lparr>recs := (recs (userEntities ?st))
                             (toLowerCase sampleEnv (ascii ''Alice'') \<mapsto>
                                (alice [])\<lparr>passwordHash := createHash sampleEnv (ascii ''secret2'')\<rparr>)\<rparr>\<rparr>,
                     Ok Success)"
    and 2: "\<forall>body' q. getProp body' k_username = JString (ascii ''Alice'')
                       \<and> getProp body' k_password = JString q \<and> strOk sampleEnv q \<longrightarrow>
                       (isl (authenticateUser sampleEnv (fst (changePassword sampleEnv ?st ?body)) body')
                          \<longleftrightarrow> createHash sampleEnv q \<noteq> createHash sampleEnv (ascii ''secret2''))"
    and 3: "createHash sampleEnv (ascii ''secret1'') \<noteq> createHash sampleEnv (ascii ''secret2'') \<longrightarrow>
                       authenticateUser sampleEnv (fst (changePassword sampleEnv ?st ?body)) ?body
                         = Inl (Fail 400 auth_msg_wrong_password)"
    by blast+
  have sx: "?st\<lparr>userEntities := (userEntities ?st)
                          \<lparr>recs := (recs (userEntities ?st))
                             (toLowerCase sampleEnv (ascii ''Alice'') \<mapsto>
                                (alice [])\<lparr>passwordHash := createHash sampleEnv (ascii ''secret2'')\<rparr>)\<rparr>\<rparr>
            = storeOf [aliceWith ''secret2''] []"
    by (simp add: storeOf_def alice_def aliceWith_def sampleEnv_def asciiLower_def ascii_def)
  have e: "fst (changePassword sampleEnv ?st ?body) = storeOf [aliceWith ''secret2''] []"
    unfolding 1 sx by simp
  from 2 q have 4: "\<not> isl (authenticateUser sampleEnv (fst (changePassword sampleEnv ?st ?body))
                        (creds ''Alice'' ''secret2''))"
    by blast
  from 1 3 d 4 show ?thesis
    unfolding e sx by simp
qed

text \<open>
  Claim C9 says that after a password change authentication fails with the old
  password. The handler does not compare the new password with the current one: Alice
  can change her password from secret1 to secret1, and the old password still
  authenticates.
\<close>

theorem old_password_survives_change_to_itself:
  "changePassword sampleEnv (storeOf [alice []] []) (changeTo ''Alice'' ''secret1'' ''secret1'')
     = (storeOf [alice []] [], Ok Success)
   \<and> \<not> isl (authenticateUser sampleEnv (storeOf [alice []] []) (creds ''Alice'' ''secret1''))"
proof -
  let ?body = "changeTo ''Alice'' ''secret1'' ''secret1''"
  let ?st = "storeOf [alice []] []"
  have a: "authenticateUser sampleEnv ?st ?body =
             Inr \<lparr>ctx_userEntity = ascii ''alice'', ctx_userId = ascii ''alice'', ctx_body = ?body\<rparr>"
    by (simp add: authenticateUser_strings [OF getProp_changeTo(1,2)] sample_defs)
  have ent: "recs (userEntities ?st)
               (ctx_userEntity \<lparr>ctx_userEntity = ascii ''alice'', ctx_userId = ascii ''alice'',
                                ctx_body = ?body\<rparr>) = Some (alice [])"
    by (simp add: storeOf_def alice_def)
  have 1: "changePassword sampleEnv ?st ?body = (?st, Ok Success)"
    unfolding changePassword_def withAuth_Inr [OF a] changePassword_handler_cases [OF ent]
    by (simp add: getProp_changeTo storeOf_def alice_def sampleEnv_def ascii_def)
  have 2: "\<not> isl (authenticateUser sampleEnv ?st (creds ''Alice'' ''secret1''))"
    by (simp add: auth_alice)
  from 1 2 show ?thesis by simp
qed

section \<open>Reachable stores and sequences of note creation\<close>

lemma register_keeps_store:
  "\<not> (isStr e (getProp body k_username) \<and> isStr e (getProp body k_password))
   \<Longrightarrow> fst (register e st body) = st"
  by (auto simp: register_def Let_def)

lemma register_store:
  "fst (register e st body) = st
   \<or> (\<exists>uid rec. recs (userEntities st) uid = None \<and> noteIds rec = []
         \<and> fst (register e st body) =
             st\<lparr>userEntities := (userEntities st)
                  \<lparr>recs := (recs (userEntities st))(uid \<mapsto> rec),
                   index := insert uid (index (userEntities st))\<rparr>\<rparr>)"
proof (cases "isStr e (getProp body k_username) \<and> isStr e (getProp body k_password)")
  case False
  then show ?thesis by (simp add: register_keeps_store)
next
  case True
  then obtain u p where up: "getProp body k_username = JString u" "getProp body k_password = JString p"
    using isStr_JString by blast
  show ?thesis
  proof (cases "fst (register e st body) = st")
    case True
    then show ?thesis by simp
  next
    case False
    then have n: "recs (userEntities st) (toLowerCase e u) = None"
      and f: "fst (register e st body) =
             st\<lparr>userEntities := (userEntities st)
                  \<lparr>recs := (recs (userEntities st))
                     (toLowerCase e u \<mapsto> \<lparr>user_id = toLowerCase e u, username = u,
                           passwordHash = createHash e p, noteIds = []\<rparr>),
                   index := insert (toLowerCase e u) (index (userEntities st))\<rparr>\<rparr>"
      by (auto simp: register_strings [OF up] exists_entity_def split: if_splits)
    have "noteIds \<lparr>user_id = toLowerCase e u, username = u,
                           passwordHash = createHash e p, noteIds = []\<rparr> = []"
      by simp
    with n f show ?thesis by blast
  qed
qed

lemma createNote_store:
  "fst (createNote e noteId now st body) = st
   \<or> (\<exists>k r n. recs (userEntities st) k = Some r \<and> recs (noteEntities st) noteId = None
         \<and> userId n = k
         \<and> fst (createNote e noteId now st body) =
             st\<lparr>noteEntities := (noteEntities st)
                   \<lparr>recs := (recs (noteEntities st))(noteId \<mapsto> n),
                    index := insert noteId (index (noteEntities st))\<rparr>,
                 userEntities := (userEntities st)
                   \<lparr>recs := (recs (userEntities st))
                      (k \<mapsto> r\<lparr>noteIds := new_Set (noteIds r @ [noteId])\<rparr>)\<rparr>\<rparr>)"
proof (cases "authenticateUser e st body")
  case (Inl resp)
  then show ?thesis by (simp add: createNote_def withAuth_Inl)
next
  case (Inr c)
  from authenticateUser_user [OF Inr] obtain r where r: "recs (userEntities st) (ctx_userId c) = Some r"
    by blast
  show ?thesis
  proof (cases "recs (noteEntities st) noteId = None")
    case True
    have u: "userId \<lparr>note_id = noteId, title = default_title, content = default_content,
                  userId = ctx_userId c, createdAt = now, updatedAt = now\<rparr> = ctx_userId c"
      by simp
    have eq: "fst (createNote e noteId now st body) =
             st\<lparr>noteEntities := (noteEntities st)
                   \<lparr>recs := (recs (noteEntities st))
                      (noteId \<mapsto> \<lparr>note_id = noteId, title = default_title, content = default_content,
                                  userId = ctx_userId c, createdAt = now, updatedAt = now\<rparr>),
                    index := insert noteId (index (noteEntities st))\<rparr>,
                 userEntities := (userEntities st)
                   \<lparr>recs := (recs (userEntities st))
                      (ctx_userId c \<mapsto> r\<lparr>noteIds := new_Set (noteIds r @ [noteId])\<rparr>)\<rparr>\<rparr>"
      using True by (simp add: createNote_cases [OF Inr r])
    from r True u eq show ?thesis by blast
  next
    case False
    then have "fst (createNote e noteId now st body) = st"
      by (auto simp: createNote_cases [OF Inr r])
    then show ?thesis by simp
  qed
qed

lemma updateNote_store:
  "fst (updateNote e noteId now st body) = st
   \<or> (\<exists>n n'. recs (noteEntities st) noteId = Some n \<and> userId n' = userId n
         \<and> fst (updateNote e noteId now st body) =
             st\<lparr>noteEntities := (noteEntities st)
                   \<lparr>recs := (recs (noteEntities st))(noteId \<mapsto> n')\<rparr>\<rparr>)"
proof (cases "authenticateUser e st body")
  case (Inl resp)
  then show ?thesis by (simp add: updateNote_def withAuth_Inl)
next
  case (Inr c)
  show ?thesis
  proof (cases "recs (noteEntities st) noteId")
    case None
    then show ?thesis
      by (simp add: updateNote_def withAuth_Inr [OF Inr] updateNote_handler_missing)
  next
    case (Some n)
    show ?thesis
    proof (cases "userId n = ctx_userId c")
      case False
      then show ?thesis
        by (simp add: updateNote_def withAuth_Inr [OF Inr] updateNote_handler_foreign [OF Some])
    next
      case True
      let ?n' = "n\<lparr>title := (case spreadIfString (getProp body k_title) of
                                 None \<Rightarrow> title n | Some t \<Rightarrow> t),
                     content := (case spreadIfString (getProp body k_content) of
                                   None \<Rightarrow> content n | Some t \<Rightarrow> t),
                     updatedAt := now\<rparr>"
      have "userId ?n' = userId n" by simp
      moreover have "fst (updateNote e noteId now st body) =
             st\<lparr>noteEntities := (noteEntities st)
                   \<lparr>recs := (recs (noteEntities st))(noteId \<mapsto> ?n')\<rparr>\<rparr>"
        unfolding updateNote_owned [OF Inr Some True] by simp
      ultimately show ?thesis using Some by blast
    qed
  qed
qed

lemma deleteNote_store:
  "fst (deleteNote e noteId st body) = st
   \<or> (\<exists>k r n. recs (userEntities st) k = Some r \<and> recs (noteEntities st) noteId = Some n
         \<and> userId n = k
         \<and> fst (deleteNote e noteId st body) =
             st\<lparr>noteEntities := (noteEntities st)
                   \<lparr>recs := (recs (noteEntities st))(noteId := None),
                    index := index (noteEntities st) - {noteId}\<rparr>,
                 userEntities := (userEntities st)
                   \<lparr>recs := (recs (userEntities st))
                      (k \<mapsto> r\<lparr>noteIds := filter (\<lambda>i. i \<noteq> noteId) (noteIds r)\<rparr>)\<rparr>\<rparr>)"
proof (cases "authenticateUser e st body")
  case (Inl resp)
  then show ?thesis by (simp add: deleteNote_def withAuth_Inl)
next
  case (Inr c)
  from authenticateUser_user [OF Inr] obtain r where r: "recs (userEntities st) (ctx_userId c) = Some r"
    by blast
  have k: "ctx_userEntity c = ctx_userId c"
    using authenticateUser_ctx(1) [OF Inr] .
  have ent: "recs (userEntities st) (ctx_userEntity c) = Some r"
    using r k by simp
  show ?thesis
  proof (cases "recs (noteEntities st) noteId")
    case None
    then show ?thesis
      by (simp add: deleteNote_def withAuth_Inr [OF Inr] deleteNote_handler_missing)
  next
    case (Some n)
    show ?thesis
    proof (cases "userId n = ctx_userId c")
      case False
      then show ?thesis
        by (simp add: deleteNote_def withAuth_Inr [OF Inr] deleteNote_handler_foreign [OF Some])
    next
      case True
      have "fst (deleteNote e noteId st body) =
             st\<lparr>noteEntities := (noteEntities st)
                   \<lparr>recs := (recs (noteEntities st))(noteId := None),
                    index := index (noteEntities st) - {noteId}\<rparr>,
                 userEntities := (userEntities st)
                   \<lparr>recs := (recs (userEntities st))
                      (ctx_userId c \<mapsto> r\<lparr>noteIds := filter (\<lambda>i. i \<noteq> noteId) (noteIds r)\<rparr>)\<rparr>\<rparr>"
        unfolding deleteNote_def withAuth_Inr [OF Inr] deleteNote_handler_owned [OF Some True ent] k
        by simp
      with r Some True show ?thesis by blast
    qed
  qed
qed

lemma changePassword_store:
  "fst (changePassword e st body) = st
   \<or> (\<exists>k r h. recs (userEntities st) k = Some r
         \<and> fst (changePassword e st body) =
             st\<lparr>userEntities := (userEntities st)
                   \<lparr>recs := (recs (userEntities st))(k \<mapsto> r\<lparr>passwordHash := h\<rparr>)\<rparr>\<rparr>)"
proof (cases "authenticateUser e st body")
  case (Inl resp)
  then show ?thesis by (simp add: changePassword_def withAuth_Inl)
next
  case (Inr c)
  from authenticateUser_user [OF Inr] obtain r where r: "recs (userEntities st) (ctx_userId c) = Some r"
    by blast
  have k: "ctx_userEntity c = ctx_userId c"
    using authenticateUser_ctx(1) [OF Inr] .
  have ent: "recs (userEntities st) (ctx_userEntity c) = Some r"
    using r k by simp
  show ?thesis
  proof (cases "fst (changePassword e st body) = st")
    case True
    then show ?thesis by simp
  next
    case False
    then obtain np where "fst (changePassword e st body) =
             st\<lparr>userEntities := (userEntities st)
                   \<lparr>recs := (recs (userEntities st))
                      (ctx_userEntity c \<mapsto> r\<lparr>passwordHash := createHash e np\<rparr>)\<rparr>\<rparr>"
      unfolding changePassword_def withAuth_Inr [OF Inr] changePassword_handler_cases [OF ent]
      by (cases "getProp (ctx_body c) k_newPassword") (auto split: if_splits)
    with ent show ?thesis by blast
  qed
qed

lemma noteIds_ok_empty: "noteIds_ok emptyStore"
  by (simp add: noteIds_ok_def emptyStore_def)

lemma noteIds_ok_register:
  assumes "noteIds_ok st" "recs (userEntities st) uid = None" "noteIds rec = []"
  shows "noteIds_ok (st\<lparr>userEntities := (userEntities st)
                  \<lparr>recs := (recs (userEntities st))(uid \<mapsto> rec),
                   index := insert uid (index (userEntities st))\<rparr>\<rparr>)"
  using assms by (auto simp: noteIds_ok_def)

lemma noteIds_ok_createNote:
  assumes "noteIds_ok st" "recs (userEntities st) k = Some r"
    and "recs (noteEntities st) noteId = None" "userId n = k"
  shows "noteIds_ok (st\<lparr>noteEntities := (noteEntities st)
                   \<lparr>recs := (recs (noteEntities st))(noteId \<mapsto> n),
                    index := insert noteId (index (noteEntities st))\<rparr>,
                 userEntities := (userEntities st)
                   \<lparr>recs := (recs (userEntities st))
                      (k \<mapsto> r\<lparr>noteIds := new_Set (noteIds r @ [noteId])\<rparr>)\<rparr>\<rparr>)"
  unfolding noteIds_ok_def
proof (intro allI impI)
  fix k' r'
  assume a: "recs (userEntities (st\<lparr>noteEntities := (noteEntities st)
                   \<lparr>recs := (recs (noteEntities st))(noteId \<mapsto> n),
                    index := insert noteId (index (noteEntities st))\<rparr>,
                 userEntities := (userEntities st)
                   \<lparr>recs := (recs (userEntities st))
                      (k \<mapsto> r\<lparr>noteIds := new_Set (noteIds r @ [noteId])\<rparr>)\<rparr>\<rparr>)) k' = Some r'"
  have old: "\<And>k0 r0 i. recs (userEntities st) k0 = Some r0 \<Longrightarrow> i \<in> set (noteIds r0)
                \<Longrightarrow> \<exists>m. recs (noteEntities st) i = Some m \<and> userId m = k0"
    using assms(1) by (auto simp: noteIds_ok_def)
  have oldd: "\<And>k0 r0. recs (userEntities st) k0 = Some r0 \<Longrightarrow> distinct (noteIds r0)"
    using assms(1) by (auto simp: noteIds_ok_def)
  show "distinct (noteIds r') \<and>
        (\<forall>i \<in> set (noteIds r'). \<exists>m. recs (noteEntities (st\<lparr>noteEntities := (noteEntities st)
                   \<lparr>recs := (recs (noteEntities st))(noteId \<mapsto> n),
                    index := insert noteId (index (noteEntities st))\<rparr>,
                 userEntities := (userEntities st)
                   \<lparr>recs := (recs (userEntities st))
                      (k \<mapsto> r\<lparr>noteIds := new_Set (noteIds r @ [noteId])\<rparr>)\<rparr>\<rparr>)) i = Some m \<and> userId m = k')"
  proof (cases "k' = k")
    case True
    then have r': "r' = r\<lparr>noteIds := new_Set (noteIds r @ [noteId])\<rparr>" using a by simp
    show ?thesis
      using old [OF assms(2)] assms(3,4) True
      by (auto simp: r' new_Set_distinct new_Set_set)
  next
    case False
    then have r': "recs (userEntities st) k' = Some r'" using a by simp
    have "noteId \<notin> set (noteIds r')"
    proof
      assume "noteId \<in> set (noteIds r')"
      from old [OF r' this] assms(3) show False by auto
    qed
    then show ?thesis
      using old [OF r'] oldd [OF r']
      by auto
  qed
qed

lemma noteIds_ok_updateNote:
  assumes "noteIds_ok st" "recs (noteEntities st) noteId = Some n" "userId n' = userId n"
  shows "noteIds_ok (st\<lparr>noteEntities := (noteEntities st)
                   \<lparr>recs := (recs (noteEntities st))(noteId \<mapsto> n')\<rparr>\<rparr>)"
  using assms by (fastforce simp: noteIds_ok_def)

lemma noteIds_ok_deleteNote:
  assumes "noteIds_ok st" "recs (userEntities st) k = Some r"
    and "recs (noteEntities st) noteId = Some n" "userId n = k"
  shows "noteIds_ok (st\<lparr>noteEntities := (noteEntities st)
                   \<lparr>recs := (recs (noteEntities st))(noteId := None),
                    index := index (noteEntities st) - {noteId}\<rparr>,
                 userEntities := (userEntities st)
                   \<lparr>recs := (recs (userEntities st))
                      (k \<mapsto> r\<lparr>noteIds := filter (\<lambda>i. i \<noteq> noteId) (noteIds r)\<rparr>)\<rparr>\<rparr>)"
  unfolding noteIds_ok_def
proof (intro allI impI)
  fix k' r'
  assume a: "recs (userEntities (st\<lparr>noteEntities := (noteEntities st)
                   \<lparr>recs := (recs (noteEntities st))(noteId := None),
                    index := index (noteEntities st) - {noteId}\<rparr>,
                 userEntities := (userEntities st)
                   \<lparr>recs := (recs (userEntities st))
                      (k \<mapsto> r\<lparr>noteIds := filter (\<lambda>i. i \<noteq> noteId) (noteIds r)\<rparr>)\<rparr>\<rparr>)) k' = Some r'"
  have old: "\<And>k0 r0 i. recs (userEntities st) k0 = Some r0 \<Longrightarrow> i \<in> set (noteIds r0)
                \<Longrightarrow> \<exists>m. recs (noteEntities st) i = Some m \<and> userId m = k0"
    using assms(1) by (auto simp: noteIds_ok_def)
  have oldd: "\<And>k0 r0. recs (userEntities st) k0 = Some r0 \<Longrightarrow> distinct (noteIds r0)"
    using assms(1) by (auto simp: noteIds_ok_def)
  show "distinct (noteIds r') \<and>
        (\<forall>i \<in> set (noteIds r'). \<exists>m. recs (noteEntities (st\<lparr>noteEntities := (noteEntities st)
                   \<lparr>recs := (recs (noteEntities st))(noteId := None),
                    index := index (noteEntities st) - {noteId}\<rparr>,
                 userEntities := (userEntities st)
                   \<lparr>recs := (recs (userEntities st))
                      (k \<mapsto> r\<lparr>noteIds := filter (\<lambda>i. i \<noteq> noteId) (noteIds r)\<rparr>)\<rparr>\<rparr>)) i = Some m \<and> userId m = k')"
  proof (cases "k' = k")
    case True
    then have r': "r' = r\<lparr>noteIds := filter (\<lambda>i. i \<noteq> noteId) (noteIds r)\<rparr>" using a by simp
    show ?thesis
      using old [OF assms(2)] oldd [OF assms(2)] True
      by (auto simp: r')
  next
    case False
    then have r': "recs (userEntities st) k' = Some r'" using a by simp
    have "noteId \<notin> set (noteIds r')"
    proof
      assume "noteId \<in> set (noteIds r')"
      from old [OF r' this] assms(3,4) False show False by auto
    qed
    then show ?thesis
      using old [OF r'] oldd [OF r']
      by auto
  qed
qed

lemma noteIds_ok_changePassword:
  assumes "noteIds_ok st" "recs (userEntities st) k = Some r"
  shows "noteIds_ok (st\<lparr>userEntities := (userEntities st)
                   \<lparr>recs := (recs (userEntities st))(k \<mapsto> r\<lparr>passwordHash := h\<rparr>)\<rparr>\<rparr>)"
  using assms by (auto simp: noteIds_ok_def)

lemma reachable_noteIds_ok: "reachable e st \<Longrightarrow> noteIds_ok st"
proof (induction rule: reachable.induct)
  case start
  show ?case by (rule noteIds_ok_empty)
next
  case (by_register st body)
  then show ?case
    using register_store [of e st body] by (auto intro: noteIds_ok_register)
next
  case (by_createNote st noteId now body)
  then show ?case
    using createNote_store [of e noteId now st body] by (auto intro: noteIds_ok_createNote)
next
  case (by_updateNote st noteId now body)
  then show ?case
    using updateNote_store [of e noteId now st body] by (auto intro: noteIds_ok_updateNote)
next
  case (by_deleteNote st noteId body)
  then show ?case
    using deleteNote_store [of e noteId st body] by (auto intro: noteIds_ok_deleteNote)
next
  case (by_changePassword st body)
  then show ?case
    using changePassword_store [of e st body] by (auto intro: noteIds_ok_changePassword)
qed

lemma createNotes_succeeded:
  assumes "getProp body k_username = JString u" "getProp body k_password = JString p"
    and "strOk e u" "strOk e p"
  shows "noteIds_ok st \<Longrightarrow> recs (userEntities st) (toLowerCase e u) = Some r
         \<Longrightarrow> passwordHash r = createHash e p
         \<Longrightarrow> list_all succeeded (snd (createNotes e st body reqs))
         \<Longrightarrow> \<exists>r'. recs (userEntities (fst (createNotes e st body reqs))) (toLowerCase e u) = Some r'
                  \<and> noteIds r' = noteIds r @ map fst reqs"
proof (induction reqs arbitrary: st r)
  case Nil
  then show ?case by simp
next
  case (Cons req reqs)
  obtain noteId now where req: "req = (noteId, now)" by (cases req)
  let ?c = "\<lparr>ctx_userEntity = toLowerCase e u, ctx_userId = toLowerCase e u, ctx_body = body\<rparr>"
  have auth: "authenticateUser e st body = Inr ?c"
    using assms(3,4) Cons.prems(2,3) by (simp add: authenticateUser_strings [OF assms(1,2)])
  have ent: "recs (userEntities st) (ctx_userId ?c) = Some r"
    using Cons.prems(2) by simp
  note cases = createNote_cases [OF auth ent, of noteId now]
  obtain st1 resp where c1: "createNote e noteId now st body = (st1, resp)"
    by (cases "createNote e noteId now st body")
  obtain st2 resps where c2: "createNotes e st1 body reqs = (st2, resps)"
    by (cases "createNotes e st1 body reqs")
  have run: "createNotes e st body (req # reqs) = (st2, resp # resps)"
    by (simp add: req c1 c2)
  from Cons.prems(4) have ok1: "succeeded resp" and rest: "list_all succeeded resps"
    by (simp_all add: run)
  have fresh: "recs (noteEntities st) noteId = None"
  proof (rule ccontr)
    assume "recs (noteEntities st) noteId \<noteq> None"
    then have "resp = Threw AlreadyExists" using cases c1 by auto
    then show False using ok1 by simp
  qed
  have inv: "distinct (noteIds r)"
    "\<And>i. i \<in> set (noteIds r) \<Longrightarrow> recs (noteEntities st) i \<noteq> None"
    using Cons.prems(1,2) unfolding noteIds_ok_def by fastforce+
  have notin: "noteId \<notin> set (noteIds r)"
    using inv(2) fresh by blast
  have ns: "new_Set (noteIds r @ [noteId]) = noteIds r @ [noteId]"
    using inv(1) notin by (simp add: new_Set_id)
  let ?n = "\<lparr>note_id = noteId, title = default_title, content = default_content,
              userId = toLowerCase e u, createdAt = now, updatedAt = now\<rparr>"
  let ?r1 = "r\<lparr>noteIds := new_Set (noteIds r @ [noteId])\<rparr>"
  have st1: "st1 = st\<lparr>noteEntities := (noteEntities st)
                      \<lparr>recs := (recs (noteEntities st))(noteId \<mapsto> ?n),
                       index := insert noteId (index (noteEntities st))\<rparr>,
                    userEntities := (userEntities st)
                      \<lparr>recs := (recs (userEntities st))(toLowerCase e u \<mapsto> ?r1)\<rparr>\<rparr>"
    using cases c1 fresh by simp
  have u: "userId ?n = toLowerCase e u" by simp
  have inv1: "noteIds_ok st1"
    unfolding st1 by (rule noteIds_ok_createNote [OF Cons.prems(1,2) fresh u])
  have r1: "recs (userEntities st1) (toLowerCase e u) = Some ?r1"
    by (simp add: st1)
  have h1: "passwordHash ?r1 = createHash e p"
    using Cons.prems(3) by simp
  have rest': "list_all succeeded (snd (createNotes e st1 body reqs))"
    using rest by (simp add: c2)
  from Cons.IH [OF inv1 r1 h1 rest']
  obtain r' where r': "recs (userEntities (fst (createNotes e st1 body reqs))) (toLowerCase e u) = Some r'"
    and ids: "noteIds r' = noteIds ?r1 @ map fst reqs"
    by blast
  have "fst (createNotes e st body (req # reqs)) = fst (createNotes e st1 body reqs)"
    by (simp add: run c2)
  with r' ids show ?case
    by (simp add: ns req)
qed

lemma createNotes_fst:
  "fst (createNotes e st body ((noteId, now) # reqs))
     = fst (createNotes e (fst (createNote e noteId now st body)) body reqs)"
  by (simp split: prod.splits)

lemma reachable_createNotes:
  "reachable e st \<Longrightarrow> reachable e (fst (createNotes e st body reqs))"
proof (induction reqs arbitrary: st)
  case Nil
  then show ?case by simp
next
  case (Cons q reqs)
  obtain noteId now where q: "q = (noteId, now)" by (cases q)
  have "reachable e (fst (createNote e noteId now st body))"
    using Cons.prems by (rule reachable.by_createNote)
  from Cons.IH [OF this] show ?case
    unfolding q createNotes_fst .
qed

lemma addNoteId_effect:
  "recs t k = Some r
   \<Longrightarrow> addNoteId t k n = Inr (t\<lparr>recs := (recs t)(k \<mapsto> r\<lparr>noteIds := new_Set (noteIds r @ [n])\<rparr>)\<rparr>)"
  by (simp add: addNoteId_def mutate_def getState_def addNoteId_tr_def)

lemma addNoteId_present:
  assumes "recs t k = Some r" "distinct (noteIds r)" "n \<in> set (noteIds r)"
  shows "addNoteId t k n = Inr t"
proof -
  have "new_Set (noteIds r @ [n]) = noteIds r"
    using assms(2,3) by (simp add: new_Set_snoc set_add_def)
  then have "r\<lparr>noteIds := new_Set (noteIds r @ [n])\<rparr> = r" by simp
  then have "(recs t)(k \<mapsto> r\<lparr>noteIds := new_Set (noteIds r @ [n])\<rparr>) = recs t"
    using assms(1) by (simp add: map_upd_triv)
  then show ?thesis by (simp add: addNoteId_effect [OF assms(1)])
qed

text \<open>
  Claim C4. The note ids of a user never hold a duplicate. On every stored user record
  \<open>addNoteId\<close> writes back the old ids with the new one added through an
  insertion-ordered set: the result is duplicate-free, its elements are the old ones
  and the new id, and adding again any id it holds leaves the table as it is. In every
  store that requests can produce from the empty one, the note ids of every user are
  duplicate-free, so that adding an id that is already present changes neither the
  elements nor the size; and after any sequence of N create-note requests of a user
  that all succeed, the note ids of that user are the old ones followed by the N new
  ids, duplicate-free and N longer.
\<close>

theorem noteIds_never_duplicate:
  "(recs t k = Some r \<longrightarrow>
      addNoteId t k n = Inr (t\<lparr>recs := (recs t)(k \<mapsto> r\<lparr>noteIds := new_Set (noteIds r @ [n])\<rparr>)\<rparr>)
    \<and> distinct (new_Set (noteIds r @ [n]))
    \<and> set (new_Set (noteIds r @ [n])) = insert n (set (noteIds r))
    \<and> (\<forall>m \<in> set (new_Set (noteIds r @ [n])).
          addNoteId (t\<lparr>recs := (recs t)(k \<mapsto> r\<lparr>noteIds := new_Set (noteIds r @ [n])\<rparr>)\<rparr>) k m
            = Inr (t\<lparr>recs := (recs t)(k \<mapsto> r\<lparr>noteIds := new_Set (noteIds r @ [n])\<rparr>)\<rparr>)))
   \<and> (reachable e st \<and> recs (userEntities st) k = Some r \<longrightarrow>
        distinct (noteIds r)
      \<and> (n \<in> set (noteIds r) \<longrightarrow> addNoteId (userEntities st) k n = Inr (userEntities st))
      \<and> (\<forall>body c reqs.
            authenticateUser e st body = Inr c \<and> ctx_userId c = k
            \<and> list_all succeeded (snd (createNotes e st body reqs)) \<longrightarrow>
            (\<exists>r'. recs (userEntities (fst (createNotes e st body reqs))) k = Some r'
                 \<and> noteIds r' = noteIds r @ map fst reqs
                 \<and> distinct (noteIds r')
                 \<and> length (noteIds r') = length (noteIds r) + length reqs)))"
proof (intro conjI impI allI ballI)
  assume r: "recs t k = Some r"
  let ?t' = "t\<lparr>recs := (recs t)(k \<mapsto> r\<lparr>noteIds := new_Set (noteIds r @ [n])\<rparr>)\<rparr>"
  show "addNoteId t k n = Inr ?t'"
    by (rule addNoteId_effect [OF r])
  show "distinct (new_Set (noteIds r @ [n]))"
    by (rule new_Set_distinct)
  show "set (new_Set (noteIds r @ [n])) = insert n (set (noteIds r))"
    by (simp add: new_Set_set)
  fix m
  assume m: "m \<in> set (new_Set (noteIds r @ [n]))"
  have r': "recs ?t' k = Some (r\<lparr>noteIds := new_Set (noteIds r @ [n])\<rparr>)"
    by simp
  show "addNoteId ?t' k m = Inr ?t'"
    by (rule addNoteId_present [OF r']) (simp_all add: new_Set_distinct m)
next
  assume h: "reachable e st \<and> recs (userEntities st) k = Some r"
  then have inv: "noteIds_ok st" using reachable_noteIds_ok by blast
  show d: "distinct (noteIds r)"
    using inv h by (auto simp: noteIds_ok_def)
  {
    assume "n \<in> set (noteIds r)"
    then show "addNoteId (userEntities st) k n = Inr (userEntities st)"
      using h d by (simp add: addNoteId_present)
  }
  fix body c reqs
  assume a: "authenticateUser e st body = Inr c \<and> ctx_userId c = k
            \<and> list_all succeeded (snd (createNotes e st body reqs))"
  from authenticateUser_InrD [of e st body c] a obtain u p r0 where
    up: "getProp body k_username = JString u" "getProp body k_password = JString p"
        "strOk e u" "strOk e p"
    and r0: "recs (userEntities st) (toLowerCase e u) = Some r0" "passwordHash r0 = createHash e p"
    and c: "c = \<lparr>ctx_userEntity = toLowerCase e u, ctx_userId = toLowerCase e u, ctx_body = body\<rparr>"
    by blast
  have k: "k = toLowerCase e u" using a c by auto
  have rr: "r0 = r" using r0(1) h k by simp
  from createNotes_succeeded [OF up inv r0(1) r0(2), of reqs] a
  obtain r' where r': "recs (userEntities (fst (createNotes e st body reqs))) (toLowerCase e u) = Some r'"
    and ids: "noteIds r' = noteIds r0 @ map fst reqs"
    by blast
  have "noteIds_ok (fst (createNotes e st body reqs))"
    using reachable_createNotes h reachable_noteIds_ok by blast
  then have d': "distinct (noteIds r')"
    using r' by (auto simp: noteIds_ok_def)
  show "\<exists>r'. recs (userEntities (fst (createNotes e st body reqs))) k = Some r'
                 \<and> noteIds r' = noteIds r @ map fst reqs
                 \<and> distinct (noteIds r')
                 \<and> length (noteIds r') = length (noteIds r) + length reqs"
    using r' ids d' rr k by auto
qed

lemma storeOf_empty: "storeOf [] [] = emptyStore"
  by (simp add: storeOf_def emptyStore_def)

lemma createNote_alice_first:
  "createNote sampleEnv (ascii ''n1'') (ascii ''2025-09-28T07:30:08.000Z'') (storeOf [alice []] [])
     (creds ''Alice'' ''secret1'')
   = (storeOf [alice [ascii ''n1'']] [note1], Ok (NoteBody note1))"
proof -
  have ent: "recs (userEntities (storeOf [alice []] []))
               (ctx_userId \<lparr>ctx_userEntity = ascii ''alice'', ctx_userId = ascii ''alice'',
                           ctx_body = creds ''Alice'' ''secret1''\<rparr>) = Some (alice [])"
    by (simp add: storeOf_def alice_def)
  show ?thesis
    unfolding createNote_cases [OF auth_alice ent]
    by (simp add: storeOf_def alice_def note1_def new_Set_def set_add_def)
qed

lemma createNote_alice_second:
  "succeeded (snd (createNote sampleEnv (ascii ''n2'') (ascii ''2025-09-28T07:31:00.000Z'')
      (storeOf [alice [ascii ''n1'']] [note1]) (creds ''Alice'' ''secret1'')))"
proof -
  have ent: "recs (userEntities (storeOf [alice [ascii ''n1'']] [note1]))
               (ctx_userId \<lparr>ctx_userEntity = ascii ''alice'', ctx_userId = ascii ''alice'',
                           ctx_body = creds ''Alice'' ''secret1''\<rparr>) = Some (alice [ascii ''n1''])"
    by (simp add: storeOf_def alice_def)
  show ?thesis
    unfolding createNote_cases [OF auth_alice ent]
    by (simp add: storeOf_def note1_def ascii_def)
qed

lemma reachable_alice: "reachable sampleEnv (storeOf [alice []] [])"
proof -
  have "fst (register sampleEnv emptyStore (creds ''Alice'' ''secret1'')) = storeOf [alice []] []"
    by (simp add: register_strings [OF getProp_creds] emptyStore_def sample_defs exists_entity_def)
  then show ?thesis
    using reachable.by_register [OF reachable.start, of sampleEnv "creds ''Alice'' ''secret1''"]
    by simp
qed

theorem noteIds_never_duplicate_witness:
  "reachable sampleEnv (storeOf [alice []] [])
   \<and> list_all succeeded
       (snd (createNotes sampleEnv (storeOf [alice []] []) (creds ''Alice'' ''secret1'')
               [(ascii ''n1'', ascii ''2025-09-28T07:30:08.000Z''),
                (ascii ''n2'', ascii ''2025-09-28T07:31:00.000Z'')]))
   \<and> map_option noteIds
       (recs (userEntities
          (fst (createNotes sampleEnv (storeOf [alice []] []) (creds ''Alice'' ''secret1'')
                 [(ascii ''n1'', ascii ''2025-09-28T07:30:08.000Z''),
                  (ascii ''n2'', ascii ''2025-09-28T07:31:00.000Z'')])))
          (ascii ''alice''))
     = Some [ascii ''n1'', ascii ''n2'']"
proof -
  let ?reqs = "[(ascii ''n1'', ascii ''2025-09-28T07:30:08.000Z''),
                (ascii ''n2'', ascii ''2025-09-28T07:31:00.000Z'')]"
  let ?st = "storeOf [alice []] []"
  let ?body = "creds ''Alice'' ''secret1''"
  have ok: "list_all succeeded (snd (createNotes sampleEnv ?st ?body ?reqs))"
    using createNote_alice_second
    by (auto simp: createNote_alice_first split: prod.splits)
  have r: "recs (userEntities ?st) (ascii ''alice'') = Some (alice [])"
    by (simp add: storeOf_def alice_def)
  have k: "ctx_userId \<lparr>ctx_userEntity = ascii ''alice'', ctx_userId = ascii ''alice'',
                       ctx_body = ?body\<rparr> = ascii ''alice''"
    by simp
  from noteIds_never_duplicate [where e = sampleEnv and st = ?st and k = "ascii ''alice''"
         and r = "alice []"]
       reachable_alice r auth_alice [of "[]" "[]"] k ok
  obtain r' where "recs (userEntities (fst (createNotes sampleEnv ?st ?body ?reqs))) (ascii ''alice'') = Some r'"
    and "noteIds r' = noteIds (alice []) @ map fst ?reqs"
    by blast
  then have "map_option noteIds
       (recs (userEntities (fst (createNotes sampleEnv ?st ?body ?reqs))) (ascii ''alice''))
     = Some [ascii ''n1'', ascii ''n2'']"
    by (simp add: alice_def)
  with reachable_alice ok show ?thesis by blast
qed

end
